theory Spec2Isabelle
  imports Main "HOL-Library.AList"
begin

section \<open>Python values and the operations the clients apply to them\<close>

text \<open>
  A Python string is a list of characters. The values that \<^verbatim>\<open>json.loads\<close> returns are
  the Python objects \<^verbatim>\<open>None\<close>, \<^verbatim>\<open>bool\<close>, numbers, \<^verbatim>\<open>str\<close>, \<^verbatim>\<open>list\<close> and
  \<^verbatim>\<open>dict\<close>; \<open>JNull\<close> is \<^verbatim>\<open>None\<close>, \<open>JNum m e\<close> is the number \<open>m * 10 ^ e\<close>, and a
  dictionary is an association list in insertion order, read through \<open>map_of\<close>.
\<close>

datatype json =
    JNull
  | JBool bool
  | JNum int int
  | JStr string
  | JArr "json list"
  | JObj "(string \<times> json) list"

datatype error =
    ValueError string
  | TypeError
  | AttributeError
  | KeyError
  | JSONDecodeError
  | RequestException string

definition startswith :: "string \<Rightarrow> string \<Rightarrow> bool" where
  \<comment> \<open>\<^verbatim>\<open>s.startswith(p)\<close>\<close>
  "startswith p s = (take (length p) s = p)"

fun contains :: "string \<Rightarrow> string \<Rightarrow> bool" where
  \<comment> \<open>\<^verbatim>\<open>sub in s\<close> on two strings\<close>
  "contains sub [] = (sub = [])"
| "contains sub (c # cs) = (startswith sub (c # cs) \<or> contains sub cs)"

definition isspace :: "char \<Rightarrow> bool" where
  \<comment> \<open>\<^verbatim>\<open>str.isspace\<close> on the code points below 256\<close>
  "isspace c = (c \<in> set [CHR 0x09, CHR 0x0A, CHR 0x0B, CHR 0x0C, CHR 0x0D,
                          CHR 0x1C, CHR 0x1D, CHR 0x1E, CHR 0x1F, CHR 0x20,
                          CHR 0x85, CHR 0xA0])"

definition strip :: "string \<Rightarrow> string" where
  \<comment> \<open>\<^verbatim>\<open>s.strip()\<close>\<close>
  "strip s = rev (dropWhile isspace (rev (dropWhile isspace s)))"

fun truthy :: "json \<Rightarrow> bool" where
  \<comment> \<open>the truth value Python gives an object in \<^verbatim>\<open>not x\<close> and \<^verbatim>\<open>x or y\<close>\<close>
  "truthy JNull = False"
| "truthy (JBool b) = b"
| "truthy (JNum m e) = (m \<noteq> 0)"
| "truthy (JStr s) = (s \<noteq> [])"
| "truthy (JArr xs) = (xs \<noteq> [])"
| "truthy (JObj d) = (d \<noteq> [])"

definition py_or :: "json \<Rightarrow> json \<Rightarrow> json" where
  \<comment> \<open>\<^verbatim>\<open>x or y\<close>\<close>
  "py_or x y = (if truthy x then x else y)"

fun py_get :: "json \<Rightarrow> string \<Rightarrow> json \<Rightarrow> error + json" where
  \<comment> \<open>\<^verbatim>\<open>obj.get(k, dflt)\<close>: only a dict has the method\<close>
  "py_get (JObj d) k dflt = Inr (case map_of d k of None \<Rightarrow> dflt | Some v \<Rightarrow> v)"
| "py_get _ k dflt = Inl AttributeError"

fun py_contains :: "string \<Rightarrow> json \<Rightarrow> error + bool" where
  \<comment> \<open>\<^verbatim>\<open>k in obj\<close> for a string \<open>k\<close>: key of a dict, element of a list, substring of a string\<close>
  "py_contains k (JObj d) = Inr (k \<in> set (map fst d))"
| "py_contains k (JArr xs) = Inr (JStr k \<in> set xs)"
| "py_contains k (JStr s) = Inr (contains k s)"
| "py_contains k _ = Inl TypeError"

fun py_getitem :: "json \<Rightarrow> string \<Rightarrow> error + json" where
  \<comment> \<open>\<^verbatim>\<open>obj[k]\<close> for a string \<open>k\<close>\<close>
  "py_getitem (JObj d) k = (case map_of d k of None \<Rightarrow> Inl KeyError | Some v \<Rightarrow> Inr v)"
| "py_getitem _ k = Inl TypeError"

fun py_iter :: "json \<Rightarrow> error + json list" where
  \<comment> \<open>the items \<^verbatim>\<open>for x in obj\<close> runs through\<close>
  "py_iter (JArr xs) = Inr xs"
| "py_iter (JObj d) = Inr (map (\<lambda>kv. JStr (fst kv)) d)"
| "py_iter (JStr s) = Inr (map (\<lambda>c. JStr [c]) s)"
| "py_iter _ = Inl TypeError"

section \<open>A decoder for concrete streams\<close>

text \<open>
  The clients are modelled over any decoder \<open>loads\<close> (\<open>None\<close> stands for
  \<^verbatim>\<open>json.JSONDecodeError\<close>). The streams of the examples are decoded by \<open>json_loads\<close>, a
  reader of the JSON grammar as \<^verbatim>\<open>json.loads\<close> of the standard library applies it to a
  string: white space around tokens, the three literals, numbers, strings with their
  escapes, arrays, objects whose later entry for a key replaces the earlier one. Numbers
  are read exactly (no rounding to a double); \<^verbatim>\<open>NaN\<close> and \<^verbatim>\<open>Infinity\<close>, and escapes of
  code points from 256 on, are outside the character and number model and are refused.
  The recursion takes its depth bound from the length of the text.
\<close>

definition json_ws :: "char \<Rightarrow> bool" where
  "json_ws c = (c \<in> set [CHR 0x20, CHR 0x09, CHR 0x0A, CHR 0x0D])"

definition skip_ws :: "string \<Rightarrow> string" where
  "skip_ws s = dropWhile json_ws s"

definition is_digit :: "char \<Rightarrow> bool" where
  "is_digit c = (c \<in> set ''0123456789'')"

definition digit_val :: "char \<Rightarrow> nat" where
  "digit_val c = (of_char c - 48)"

definition nat_of_digits :: "string \<Rightarrow> nat" where
  "nat_of_digits ds = foldl (\<lambda>n c. 10 * n + digit_val c) 0 ds"

definition hex_val :: "char \<Rightarrow> nat option" where
  "hex_val c =
     (if is_digit c then Some (digit_val c)
      else if c \<in> set ''abcdef'' then Some (of_char c - 87)
      else if c \<in> set ''ABCDEF'' then Some (of_char c - 55)
      else None)"

definition unescape :: "char \<Rightarrow> char option" where
  "unescape e =
     (if e = CHR 0x22 then Some (CHR 0x22)
      else if e = CHR 0x5C then Some (CHR 0x5C)
      else if e = CHR ''/'' then Some (CHR ''/'')
      else if e = CHR ''b'' then Some (CHR 0x08)
      else if e = CHR ''f'' then Some (CHR 0x0C)
      else if e = CHR ''n'' then Some (CHR 0x0A)
      else if e = CHR ''r'' then Some (CHR 0x0D)
      else if e = CHR ''t'' then Some (CHR 0x09)
      else None)"

definition cons_to :: "char \<Rightarrow> (string \<times> string) option \<Rightarrow> (string \<times> string) option" where
  "cons_to c r = (case r of None \<Rightarrow> None | Some (x, rest) \<Rightarrow> Some (c # x, rest))"

fun scan_string :: "string \<Rightarrow> (string \<times> string) option" where
  "scan_string [] = None"
| "scan_string (c # cs) =
     (if c = CHR 0x22 then Some ([], cs)
      else if c = CHR 0x5C then
        (case cs of
           [] \<Rightarrow> None
         | e # cs' \<Rightarrow>
             if e = CHR ''u'' then
               (case cs' of
                  h1 # h2 # h3 # h4 # rest \<Rightarrow>
                    (case (hex_val h1, hex_val h2, hex_val h3, hex_val h4) of
                       (Some a, Some b, Some c', Some d) \<Rightarrow>
                         if a = 0 \<and> b = 0 then cons_to (char_of (16 * c' + d)) (scan_string rest)
                         else None
                     | _ \<Rightarrow> None)
                | _ \<Rightarrow> None)
             else
               (case unescape e of
                  None \<Rightarrow> None
                | Some d \<Rightarrow> cons_to d (scan_string cs')))
      else if (of_char c :: nat) < 32 then None
      else cons_to c (scan_string cs))"

definition scan_number :: "string \<Rightarrow> (json \<times> string) option" where
  "scan_number s =
     (let neg = (s \<noteq> [] \<and> hd s = CHR ''-'');
          s1 = (if neg then tl s else s);
          ip = (if s1 \<noteq> [] \<and> hd s1 = CHR ''0'' then ''0'' else takeWhile is_digit s1);
          s2 = drop (length ip) s1;
          fp = (if s2 \<noteq> [] \<and> hd s2 = CHR ''.'' then takeWhile is_digit (tl s2) else []);
          s3 = (if fp = [] then s2 else drop (Suc (length fp)) s2);
          has_e = (s3 \<noteq> [] \<and> (hd s3 = CHR ''e'' \<or> hd s3 = CHR ''E''));
          s4 = (if has_e then tl s3 else s3);
          eneg = (has_e \<and> s4 \<noteq> [] \<and> hd s4 = CHR ''-'');
          s5 = (if has_e \<and> s4 \<noteq> [] \<and> (hd s4 = CHR ''-'' \<or> hd s4 = CHR ''+'') then tl s4 else s4);
          ep = (if has_e then takeWhile is_digit s5 else []);
          s6 = (if ep = [] then s3 else drop (length ep) s5);
          m = int (nat_of_digits (ip @ fp));
          e = (if eneg then - int (nat_of_digits ep) else int (nat_of_digits ep)) - int (length fp)
      in if ip = [] then None else Some (JNum (if neg then - m else m) e, s6))"

definition dict_of :: "(string \<times> json) list \<Rightarrow> (string \<times> json) list" where
  "dict_of ps = foldl (\<lambda>d kv. AList.update (fst kv) (snd kv) d) [] ps"

fun parse_value :: "nat \<Rightarrow> string \<Rightarrow> (json \<times> string) option"
and parse_array :: "nat \<Rightarrow> string \<Rightarrow> (json list \<times> string) option"
and parse_object :: "nat \<Rightarrow> string \<Rightarrow> ((string \<times> json) list \<times> string) option"
where
  "parse_value 0 s = None"
| "parse_value (Suc n) s =
     (case s of
        [] \<Rightarrow> None
      | c # cs \<Rightarrow>
          if c = CHR 0x22 then
            (case scan_string cs of None \<Rightarrow> None | Some (x, r) \<Rightarrow> Some (JStr x, r))
          else if c = CHR ''{'' then
            (let r = skip_ws cs in
             if r \<noteq> [] \<and> hd r = CHR ''}'' then Some (JObj [], tl r)
             else (case parse_object n r of
                     None \<Rightarrow> None
                   | Some (ps, r') \<Rightarrow> Some (JObj (dict_of ps), r')))
          else if c = CHR ''['' then
            (let r = skip_ws cs in
             if r \<noteq> [] \<and> hd r = CHR '']'' then Some (JArr [], tl r)
             else (case parse_array n r of
                     None \<Rightarrow> None
                   | Some (vs, r') \<Rightarrow> Some (JArr vs, r')))
          else if startswith ''null'' s then Some (JNull, drop 4 s)
          else if startswith ''true'' s then Some (JBool True, drop 4 s)
          else if startswith ''false'' s then Some (JBool False, drop 5 s)
          else scan_number s)"
| "parse_array 0 s = None"
| "parse_array (Suc n) s =
     (case parse_value n s of
        None \<Rightarrow> None
      | Some (v, r) \<Rightarrow>
          (let r1 = skip_ws r in
           if r1 \<noteq> [] \<and> hd r1 = CHR '']'' then Some ([v], tl r1)
           else if r1 \<noteq> [] \<and> hd r1 = CHR '','' then
             (case parse_array n (skip_ws (tl r1)) of
                None \<Rightarrow> None
              | Some (vs, r2) \<Rightarrow> Some (v # vs, r2))
           else None))"
| "parse_object 0 s = None"
| "parse_object (Suc n) s =
     (if s \<noteq> [] \<and> hd s = CHR 0x22 then
        (case scan_string (tl s) of
           None \<Rightarrow> None
         | Some (k, r) \<Rightarrow>
             (let r1 = skip_ws r in
              if r1 \<noteq> [] \<and> hd r1 = CHR '':'' then
                (case parse_value n (skip_ws (tl r1)) of
                   None \<Rightarrow> None
                 | Some (v, r2) \<Rightarrow>
                     (let r3 = skip_ws r2 in
                      if r3 \<noteq> [] \<and> hd r3 = CHR ''}'' then Some ([(k, v)], tl r3)
                      else if r3 \<noteq> [] \<and> hd r3 = CHR '','' then
                        (case parse_object n (skip_ws (tl r3)) of
                           None \<Rightarrow> None
                         | Some (ps, r4) \<Rightarrow> Some ((k, v) # ps, r4))
                      else None))
              else None))
      else None)"

definition json_loads :: "string \<Rightarrow> json option" where
  "json_loads s =
     (case parse_value (Suc (length s)) (skip_ws s) of
        None \<Rightarrow> None
      | Some (v, r) \<Rightarrow> if skip_ws r = [] then Some v else None)"

section \<open>The streaming loop shared by both clients\<close>

text \<open>
  The locals of the loop in \<^verbatim>\<open>LLMLabsClient.chat\<close> and \<^verbatim>\<open>Client.chat\<close>. The legacy client
  returns them as a namespace: \<^verbatim>\<open>response=stitched_response\<close>, \<^verbatim>\<open>raw_chunks=results\<close> and
  the other three under their own names.
\<close>

record assembly =
  results :: "json list"
  stitched_response :: string
  evaluations :: json
  trace_id :: json
  model :: json

text \<open>
  A statement inside the \<^verbatim>\<open>try\<close> of a chunk either completes (\<open>Inr\<close> the locals) or
  raises (\<open>Inl\<close> the exception and the locals as they stand): the handler is
  \<^verbatim>\<open>pass\<close>, so whatever was assigned before the raise is kept.
\<close>

type_synonym 's step = "(error \<times> 's) + 's"

definition and_then :: "'s step \<Rightarrow> ('s \<Rightarrow> 's step) \<Rightarrow> 's step" where
  "and_then r f = (case r of Inl x \<Rightarrow> Inl x | Inr s \<Rightarrow> f s)"

fun locals_of :: "'s step \<Rightarrow> 's" where
  \<comment> \<open>\<^verbatim>\<open>except: pass\<close>\<close>
  "locals_of (Inl (e, s)) = s"
| "locals_of (Inr s) = s"

definition capture_model :: "json \<Rightarrow> 'a assembly_scheme \<Rightarrow> 'a assembly_scheme step" where
  \<comment> \<open>\<^verbatim>\<open>if not model and "model" in chunk: model = chunk["model"]\<close>\<close>
  "capture_model chunk st =
     (if \<not> truthy (model st) then
        (case py_contains ''model'' chunk of
           Inl e \<Rightarrow> Inl (e, st)
         | Inr b \<Rightarrow>
             if b then
               (case py_getitem chunk ''model'' of
                  Inl e \<Rightarrow> Inl (e, st)
                | Inr m \<Rightarrow> Inr (st\<lparr>model := m\<rparr>))
             else Inr st)
      else Inr st)"

definition capture_id :: "json \<Rightarrow> 'a assembly_scheme \<Rightarrow> 'a assembly_scheme step" where
  \<comment> \<open>\<^verbatim>\<open>if "id" in chunk: trace_id = chunk["id"]\<close>\<close>
  "capture_id chunk st =
     (case py_contains ''id'' chunk of
        Inl e \<Rightarrow> Inl (e, st)
      | Inr b \<Rightarrow>
          if b then
            (case py_getitem chunk ''id'' of
               Inl e \<Rightarrow> Inl (e, st)
             | Inr t \<Rightarrow> Inr (st\<lparr>trace_id := t\<rparr>))
          else Inr st)"

fun for_choices :: "('s \<Rightarrow> json \<Rightarrow> 's step) \<Rightarrow> json list \<Rightarrow> 's \<Rightarrow> 's step" where
  \<comment> \<open>\<^verbatim>\<open>for choice in ...\<close>: a raise leaves the loop\<close>
  "for_choices body [] st = Inr st"
| "for_choices body (c # cs) st =
     (case body st c of Inl x \<Rightarrow> Inl x | Inr st' \<Rightarrow> for_choices body cs st')"

definition handle_choices :: "('s \<Rightarrow> json \<Rightarrow> 's step) \<Rightarrow> json \<Rightarrow> 's \<Rightarrow> 's step" where
  \<comment> \<open>\<^verbatim>\<open>if "choices" in chunk: for choice in chunk["choices"]: ...\<close>\<close>
  "handle_choices body chunk st =
     (case py_contains ''choices'' chunk of
        Inl e \<Rightarrow> Inl (e, st)
      | Inr b \<Rightarrow>
          if b then
            (case py_getitem chunk ''choices'' of
               Inl e \<Rightarrow> Inl (e, st)
             | Inr v \<Rightarrow>
                 (case py_iter v of
                    Inl e \<Rightarrow> Inl (e, st)
                  | Inr cs \<Rightarrow> for_choices body cs st))
          else Inr st)"

definition handle_chunk ::
  "('a assembly_scheme \<Rightarrow> json \<Rightarrow> 'a assembly_scheme step) \<Rightarrow> json \<Rightarrow>
   'a assembly_scheme \<Rightarrow> 'a assembly_scheme" where
  \<comment> \<open>the body of the \<^verbatim>\<open>try\<close> after \<^verbatim>\<open>json.loads\<close> succeeded, under its \<^verbatim>\<open>except: pass\<close>\<close>
  "handle_chunk body chunk st =
     locals_of
       (and_then
          (and_then (capture_model chunk (st\<lparr>results := results st @ [chunk]\<rparr>))
             (capture_id chunk))
          (handle_choices body chunk))"

definition handle_line ::
  "(string \<Rightarrow> json option) \<Rightarrow> ('a assembly_scheme \<Rightarrow> json \<Rightarrow> 'a assembly_scheme step) \<Rightarrow>
   'a assembly_scheme \<Rightarrow> string \<Rightarrow> 'a assembly_scheme" where
  \<comment> \<open>one turn of \<^verbatim>\<open>for line in response.iter_lines(decode_unicode=True)\<close>; \<open>loads\<close> is
      \<^verbatim>\<open>json.loads\<close>, \<open>None\<close> when it raises\<close>
  "handle_line loads body st line =
     (if line \<noteq> [] \<and> startswith ''data:'' line then
        (let json_part = strip (drop 5 line) in
         if json_part \<noteq> [] \<and> json_part \<noteq> ''[START]'' then
           (case loads json_part of
              None \<Rightarrow> st
            | Some chunk \<Rightarrow> handle_chunk body chunk st)
         else st)
      else st)"

definition is_evaluation_start :: "string \<Rightarrow> bool" where
  \<comment> \<open>\<^verbatim>\<open>content.startswith("{") and "evaluations" in content\<close>\<close>
  "is_evaluation_start content = (startswith ''{'' content \<and> contains ''evaluations'' content)"

definition delta_content :: "json \<Rightarrow> error + string" where
  \<comment> \<open>\<^verbatim>\<open>delta = choice.get("delta", {}); content = delta.get("content", "")\<close>, and the
      \<^verbatim>\<open>content.startswith\<close> that follows needs a string\<close>
  "delta_content choice =
     (case py_get choice ''delta'' (JObj []) of
        Inl e \<Rightarrow> Inl e
      | Inr delta \<Rightarrow>
          (case py_get delta ''content'' (JStr []) of
             Inl e \<Rightarrow> Inl e
           | Inr (JStr content) \<Rightarrow> Inr content
           | Inr _ \<Rightarrow> Inl AttributeError))"

section \<open>The transport\<close>

text \<open>
  What \<^verbatim>\<open>requests.post\<close> hands back: the status code, the body as text, and the lines that
  \<^verbatim>\<open>iter_lines\<close> delivers; \<open>broken = Some msg\<close> when, after the last of these lines, the
  iterator raises \<^verbatim>\<open>ChunkedEncodingError(msg)\<close> instead of stopping. A call of
  \<^verbatim>\<open>requests.post\<close> that itself raises a \<^verbatim>\<open>RequestException\<close> is \<open>Inl\<close> its message.
\<close>

record http_response =
  status_code :: int
  text_body :: string
  iter_lines :: "string list"
  broken :: "string option"

type_synonym post_result = "string + http_response"

function str_nat :: "nat \<Rightarrow> string" where
  "str_nat n =
     (if n < 10 then [''0123456789'' ! n]
      else str_nat (n div 10) @ [''0123456789'' ! (n mod 10)])"
  by pat_completeness auto
termination
  by (relation "measure (\<lambda>n. n)") auto

declare str_nat.simps [simp del]

definition str_int :: "int \<Rightarrow> string" where
  \<comment> \<open>\<^verbatim>\<open>str(i)\<close>, which an f-string applies to an integer\<close>
  "str_int i = (if i < 0 then CHR ''-'' # str_nat (nat (- i)) else str_nat (nat i))"

definition ok_status :: "int \<Rightarrow> bool" where
  \<comment> \<open>\<^verbatim>\<open>200 <= response.status_code < 300\<close>\<close>
  "ok_status c = (200 \<le> c \<and> c < 300)"

section \<open>\<^verbatim>\<open>insightfinder/client.py\<close>: \<^verbatim>\<open>LLMLabsClient.chat\<close>\<close>

definition labs_check_status :: "http_response \<Rightarrow> error + unit" where
  "labs_check_status response =
     (if ok_status (status_code response) then Inr ()
      else if 400 \<le> status_code response \<and> status_code response < 500 then
        Inl (ValueError (''Client error '' @ str_int (status_code response) @ '': '' @
                         text_body response))
      else if 500 \<le> status_code response \<and> status_code response < 600 then
        Inl (ValueError (''Server error '' @ str_int (status_code response) @ '': '' @
                         text_body response))
      else
        Inl (ValueError (''Unexpected status code '' @ str_int (status_code response) @ '': '' @
                         text_body response)))"

definition labs_content :: "(string \<Rightarrow> json option) \<Rightarrow> assembly \<Rightarrow> string \<Rightarrow> assembly" where
  \<comment> \<open>What the loop does with one \<^verbatim>\<open>content\<close>. The inner \<^verbatim>\<open>try\<close> has
      \<^verbatim>\<open>except Exception: pass\<close>, so nothing raised while the evaluation object is read
      leaves the branch, and what was assigned before the raise stays.\<close>
  "labs_content loads st content =
     (if is_evaluation_start content then
        (case loads content of
           None \<Rightarrow> st
         | Some eval_obj \<Rightarrow>
             (case py_get eval_obj ''evaluations'' JNull of
                Inl e \<Rightarrow> st
              | Inr ev \<Rightarrow>
                  (case py_get eval_obj ''traceId'' (trace_id st) of
                     Inl e \<Rightarrow> st\<lparr>evaluations := ev\<rparr>
                   | Inr t \<Rightarrow> st\<lparr>evaluations := ev, trace_id := t\<rparr>)))
      else st\<lparr>stitched_response := stitched_response st @ content\<rparr>)"

definition labs_choice :: "(string \<Rightarrow> json option) \<Rightarrow> assembly \<Rightarrow> json \<Rightarrow> assembly step" where
  \<comment> \<open>the body of \<^verbatim>\<open>for choice in chunk["choices"]\<close>\<close>
  "labs_choice loads st choice =
     (case delta_content choice of
        Inl e \<Rightarrow> Inl (e, st)
      | Inr content \<Rightarrow> Inr (labs_content loads st content))"

definition labs_init :: assembly where
  "labs_init = \<lparr>results = [], stitched_response = [], evaluations = JNull,
                 trace_id = JNull, model = JNull\<rparr>"

definition labs_lines :: "(string \<Rightarrow> json option) \<Rightarrow> assembly \<Rightarrow> string list \<Rightarrow> assembly" where
  "labs_lines loads st ls = foldl (handle_line loads (labs_choice loads)) st ls"

definition LLMLabsClient_chat ::
  "(string \<Rightarrow> json option) \<Rightarrow> string \<Rightarrow> string option \<Rightarrow> string option \<Rightarrow> string option \<Rightarrow>
   post_result \<Rightarrow> string \<times> (error + assembly)" where
  \<comment> \<open>Returns what was printed and the outcome: the exception raised or the namespace
      returned. An exception of \<^verbatim>\<open>requests.post\<close> is not caught here.\<close>
  "LLMLabsClient_chat loads prompt model_version user_created_model_name model_id_type post =
     (if prompt = [] then ([], Inl (ValueError ''Prompt cannot be empty.''))
      else if model_version = None then ([], Inl (ValueError ''Model version must be specified.''))
      else if model_id_type = None then ([], Inl (ValueError ''Model ID type must be specified.''))
      else if user_created_model_name = None then
        ([], Inl (ValueError ''User created model name must be specified.''))
      else
        (case post of
           Inl msg \<Rightarrow> ([], Inl (RequestException msg))
         | Inr response \<Rightarrow>
             (case labs_check_status response of
                Inl e \<Rightarrow> ([], Inl e)
              | Inr _ \<Rightarrow>
                  (let st = labs_lines loads labs_init (iter_lines response) in
                   case broken response of
                     None \<Rightarrow> ([], Inr st)
                   | Some msg \<Rightarrow> (''Stream broken: '' @ msg @ [CHR 0x0A], Inr st)))))"

section \<open>\<^verbatim>\<open>insightfinderai/client.py\<close>: results and \<^verbatim>\<open>Client.chat\<close>\<close>

record EvaluationResult =
  er_evaluations :: json
  er_trace_id :: json
  er_prompt :: json
  er_response :: json

definition EvaluationResult_init :: "json \<Rightarrow> json \<Rightarrow> json \<Rightarrow> json \<Rightarrow> error + EvaluationResult" where
  \<comment> \<open>\<^verbatim>\<open>EvaluationResult.__init__(evaluation_data, trace_id, prompt, response)\<close>\<close>
  "EvaluationResult_init evaluation_data tid prompt response =
     (case py_get evaluation_data ''evaluations'' (JArr []) of
        Inl e \<Rightarrow> Inl e
      | Inr ev \<Rightarrow>
          (case (if truthy tid then Inr tid else py_get evaluation_data ''traceId'' (JStr [])) of
             Inl e \<Rightarrow> Inl e
           | Inr t \<Rightarrow>
               Inr \<lparr>er_evaluations = ev, er_trace_id = t, er_prompt = prompt,
                    er_response = response\<rparr>))"

record ChatResponse =
  cr_response :: string
  cr_prompt :: string
  cr_evaluations :: "EvaluationResult option"
  cr_enable_evaluations :: bool
  cr_trace_id :: json
  cr_model :: json
  cr_raw_chunks :: "json list"

definition ChatResponse_init ::
  "string \<Rightarrow> string \<Rightarrow> json \<Rightarrow> json \<Rightarrow> json \<Rightarrow> json list \<Rightarrow> bool \<Rightarrow> ChatResponse" where
  \<comment> \<open>\<^verbatim>\<open>ChatResponse.__init__(response, prompt, evaluations, trace_id, model, raw_chunks,
      enable_evaluations)\<close>; the dictionary it gives \<^verbatim>\<open>EvaluationResult\<close> is
      \<^verbatim>\<open>{'evaluations': evaluations or []}\<close>\<close>
  "ChatResponse_init response prompt evs tid mdl raw_chunks enable =
     \<lparr>cr_response = response, cr_prompt = prompt,
      cr_evaluations =
        (if truthy evs then
           (case EvaluationResult_init (JObj [(''evaluations'', py_or evs (JArr []))]) tid
                   (JStr prompt) (JStr response) of
              Inl e \<Rightarrow> None
            | Inr r \<Rightarrow> Some r)
         else None),
      cr_enable_evaluations = enable, cr_trace_id = tid, cr_model = mdl,
      cr_raw_chunks = raw_chunks\<rparr>"

record Client =
  session_name :: string
  enable_evaluations :: bool
  project_name :: string

record client_locals = assembly +
  evaluation_buffer :: string
  in_evaluation_block :: bool
  printed :: string

definition client_content ::
  "(string \<Rightarrow> json option) \<Rightarrow> bool \<Rightarrow> client_locals \<Rightarrow> string \<Rightarrow> client_locals step" where
  \<comment> \<open>What the loop does with one \<^verbatim>\<open>content\<close>. The inner \<^verbatim>\<open>try\<close> catches
      \<^verbatim>\<open>json.JSONDecodeError\<close> only: an evaluation object without \<^verbatim>\<open>get\<close> raises to the
      handler of the chunk, after the buffer was extended.\<close>
  "client_content loads stream st content =
     (if is_evaluation_start content then
        Inr (st\<lparr>in_evaluation_block := True, evaluation_buffer := content\<rparr>)
      else if in_evaluation_block st then
        (let st1 = st\<lparr>evaluation_buffer := evaluation_buffer st @ content\<rparr> in
         case loads (evaluation_buffer st1) of
           None \<Rightarrow> Inr st1
         | Some eval_obj \<Rightarrow>
             (case py_get eval_obj ''evaluations'' JNull of
                Inl e \<Rightarrow> Inl (e, st1)
              | Inr ev \<Rightarrow>
                  (case py_get eval_obj ''traceId'' (trace_id st1) of
                     Inl e \<Rightarrow> Inl (e, st1\<lparr>evaluations := ev\<rparr>)
                   | Inr t \<Rightarrow>
                       Inr (st1\<lparr>evaluations := ev, trace_id := t,
                                in_evaluation_block := False, evaluation_buffer := []\<rparr>))))
      else
        Inr (st\<lparr>stitched_response := stitched_response st @ content,
                printed := printed st @ (if stream \<and> content \<noteq> [] then content else [])\<rparr>))"

definition client_choice ::
  "(string \<Rightarrow> json option) \<Rightarrow> bool \<Rightarrow> client_locals \<Rightarrow> json \<Rightarrow> client_locals step" where
  \<comment> \<open>the body of \<^verbatim>\<open>for choice in chunk["choices"]\<close>\<close>
  "client_choice loads stream st choice =
     (case delta_content choice of
        Inl e \<Rightarrow> Inl (e, st)
      | Inr content \<Rightarrow> client_content loads stream st content)"

definition client_init :: client_locals where
  "client_init = \<lparr>results = [], stitched_response = [], evaluations = JNull,
                   trace_id = JNull, model = JNull, evaluation_buffer = [],
                   in_evaluation_block = False, printed = []\<rparr>"

definition client_lines ::
  "(string \<Rightarrow> json option) \<Rightarrow> bool \<Rightarrow> client_locals \<Rightarrow> string list \<Rightarrow> client_locals" where
  "client_lines loads stream st ls = foldl (handle_line loads (client_choice loads stream)) st ls"

definition Client_chat ::
  "(string \<Rightarrow> json option) \<Rightarrow> Client \<Rightarrow> string \<Rightarrow> bool \<Rightarrow> post_result \<Rightarrow>
   string \<times> (error + ChatResponse)" where
  \<comment> \<open>Returns what was printed and the outcome. Every \<^verbatim>\<open>RequestException\<close>, the one of a
      broken stream too, reaches the handler that raises \<^verbatim>\<open>ValueError\<close>.\<close>
  "Client_chat loads self prompt stream post =
     (if strip prompt = [] then ([], Inl (ValueError ''Prompt cannot be empty''))
      else
        (case post of
           Inl msg \<Rightarrow> ([], Inl (ValueError (''Request failed: '' @ msg)))
         | Inr response \<Rightarrow>
             if \<not> ok_status (status_code response) then
               ([], Inl (ValueError (''API error '' @ str_int (status_code response) @ '': '' @
                                     text_body response)))
             else
               (let st = client_lines loads stream client_init (iter_lines response) in
                case broken response of
                  Some msg \<Rightarrow> (printed st, Inl (ValueError (''Request failed: '' @ msg)))
                | None \<Rightarrow>
                    (printed st,
                     Inr (ChatResponse_init (stitched_response st) prompt
                            (if enable_evaluations self then evaluations st else JNull)
                            (trace_id st) (model st) (results st)
                            (enable_evaluations self))))))"

section \<open>\<^verbatim>\<open>insightfinderai/client.py\<close>: evaluation calls and batches\<close>

definition Client_evaluate ::
  "(string \<Rightarrow> json option) \<Rightarrow> Client \<Rightarrow> string \<Rightarrow> string \<Rightarrow> json \<Rightarrow> string \<Rightarrow> post_result \<Rightarrow>
   error + EvaluationResult" where
  \<comment> \<open>\<^verbatim>\<open>Client.evaluate(prompt, response, trace_id)\<close>; \<open>uuid4\<close> is the string that
      \<^verbatim>\<open>_generate_trace_id\<close> would return, \<open>tid\<close> the argument (\<open>JNull\<close> when left out).
      A body that is not JSON is \<open>Inl JSONDecodeError\<close>: which exception class and
      message reach the caller depends on the version of \<^verbatim>\<open>requests\<close>, and nothing
      below depends on it.\<close>
  "Client_evaluate loads self prompt response tid uuid4 post =
     (if strip prompt = [] then Inl (ValueError ''Prompt cannot be empty'')
      else if strip response = [] then Inl (ValueError ''Response cannot be empty'')
      else
        (let tid' = py_or tid (JStr uuid4) in
         case post of
           Inl msg \<Rightarrow> Inl (ValueError (''Evaluation request failed: '' @ msg))
         | Inr api_response \<Rightarrow>
             if \<not> ok_status (status_code api_response) then
               Inl (ValueError (''Evaluation API error '' @ str_int (status_code api_response) @
                                '': '' @ text_body api_response))
             else
               (case loads (text_body api_response) of
                  None \<Rightarrow> Inl JSONDecodeError
                | Some result_data \<Rightarrow>
                    EvaluationResult_init result_data tid' (JStr prompt) (JStr response))))"

definition Client_safety_evaluation ::
  "(string \<Rightarrow> json option) \<Rightarrow> Client \<Rightarrow> string \<Rightarrow> json \<Rightarrow> string \<Rightarrow> post_result \<Rightarrow>
   error + EvaluationResult" where
  \<comment> \<open>\<^verbatim>\<open>Client.safety_evaluation(prompt, trace_id)\<close>\<close>
  "Client_safety_evaluation loads self prompt tid uuid4 post =
     (if strip prompt = [] then Inl (ValueError ''Prompt cannot be empty'')
      else
        (let tid' = py_or tid (JStr uuid4) in
         case post of
           Inl msg \<Rightarrow> Inl (ValueError (''Safety evaluation request failed: '' @ msg))
         | Inr api_response \<Rightarrow>
             if \<not> ok_status (status_code api_response) then
               Inl (ValueError (''Safety API error '' @ str_int (status_code api_response) @
                                '': '' @ text_body api_response))
             else
               (case loads (text_body api_response) of
                  None \<Rightarrow> Inl JSONDecodeError
                | Some result_data \<Rightarrow>
                    EvaluationResult_init result_data tid' (JStr prompt) JNull)))"

text \<open>
  The three batch methods share one shape. Every input is submitted with its index; the
  futures complete in some order, here the list \<open>order\<close> of their indices (each index of
  the input once). A future that returns writes its result into the slot of its index, one
  that raises writes \<^verbatim>\<open>None\<close>; in the end the slots that are not \<^verbatim>\<open>None\<close> are returned.
  \<open>single i x\<close> is the outcome of the call for input \<open>x\<close> at index \<open>i\<close>.
\<close>

definition fill_slots ::
  "(nat \<Rightarrow> 'a \<Rightarrow> error + 'b) \<Rightarrow> 'a list \<Rightarrow> nat list \<Rightarrow> 'b option list" where
  \<comment> \<open>\<^verbatim>\<open>results = [None] * len(inputs)\<close> and the loop over \<^verbatim>\<open>as_completed\<close>\<close>
  "fill_slots single inputs order =
     foldl (\<lambda>results i.
              results[i := (case single i (inputs ! i) of Inl e \<Rightarrow> None | Inr r \<Rightarrow> Some r)])
       (replicate (length inputs) None) order"

definition batch ::
  "string \<Rightarrow> (nat \<Rightarrow> 'a \<Rightarrow> error + 'b) \<Rightarrow> 'a list \<Rightarrow> int \<Rightarrow> nat list \<Rightarrow> error + 'b list" where
  \<comment> \<open>the executor refuses a pool of no workers; the last line is
      \<^verbatim>\<open>return [r for r in results if r is not None]\<close>\<close>
  "batch empty_message single inputs max_workers order =
     (if inputs = [] then Inl (ValueError empty_message)
      else if max_workers \<le> 0 then Inl (ValueError ''max_workers must be greater than 0'')
      else Inr (List.map_filter (\<lambda>r. r) (fill_slots single inputs order)))"

definition Client_batch_chat ::
  "(string \<Rightarrow> json option) \<Rightarrow> Client \<Rightarrow> (nat \<Rightarrow> post_result) \<Rightarrow> string list \<Rightarrow> int \<Rightarrow> nat list \<Rightarrow>
   error + ChatResponse list" where
  \<comment> \<open>\<open>post i\<close> is the exchange of the call for the prompt at index \<open>i\<close>\<close>
  "Client_batch_chat loads self post prompts max_workers order =
     batch ''Prompts list cannot be empty''
       (\<lambda>i prompt. snd (Client_chat loads self prompt False (post i)))
       prompts max_workers order"

definition Client_batch_evaluate ::
  "(string \<Rightarrow> json option) \<Rightarrow> Client \<Rightarrow> (nat \<Rightarrow> string) \<Rightarrow> (nat \<Rightarrow> post_result) \<Rightarrow>
   (string \<times> string) list \<Rightarrow> int \<Rightarrow> nat list \<Rightarrow> error + EvaluationResult list" where
  "Client_batch_evaluate loads self uuid4 post prompt_response_pairs max_workers order =
     batch ''Prompt-response pairs list cannot be empty''
       (\<lambda>i pair. Client_evaluate loads self (fst pair) (snd pair) JNull (uuid4 i) (post i))
       prompt_response_pairs max_workers order"

definition Client_batch_safety_evaluation ::
  "(string \<Rightarrow> json option) \<Rightarrow> Client \<Rightarrow> (nat \<Rightarrow> string) \<Rightarrow> (nat \<Rightarrow> post_result) \<Rightarrow>
   string list \<Rightarrow> int \<Rightarrow> nat list \<Rightarrow> error + EvaluationResult list" where
  "Client_batch_safety_evaluation loads self uuid4 post prompts max_workers order =
     batch ''Prompts list cannot be empty''
       (\<lambda>i prompt. Client_safety_evaluation loads self prompt JNull (uuid4 i) (post i))
       prompts max_workers order"

section \<open>Reading a stream: chunks and fragments\<close>

definition chunk_of :: "(string \<Rightarrow> json option) \<Rightarrow> string \<Rightarrow> json option" where
  \<comment> \<open>the chunk a line stands for: none unless the line is a \<^verbatim>\<open>data:\<close> line whose payload
      is not empty, not \<^verbatim>\<open>[START]\<close>, and decodes\<close>
  "chunk_of loads line =
     (if line \<noteq> [] \<and> startswith ''data:'' line then
        (let json_part = strip (drop 5 line) in
         if json_part \<noteq> [] \<and> json_part \<noteq> ''[START]'' then loads json_part else None)
      else None)"

definition chunks :: "(string \<Rightarrow> json option) \<Rightarrow> string list \<Rightarrow> json list" where
  "chunks loads ls = List.map_filter (chunk_of loads) ls"

fun contents_read :: "json list \<Rightarrow> string list" where
  \<comment> \<open>the contents of the choices, up to the first choice whose content cannot be read\<close>
  "contents_read [] = []"
| "contents_read (c # cs) =
     (case delta_content c of Inl e \<Rightarrow> [] | Inr s \<Rightarrow> s # contents_read cs)"

fun fragments :: "json \<Rightarrow> string list" where
  \<comment> \<open>the content fragments of a chunk, in the order of its choices\<close>
  "fragments (JObj d) =
     (case map_of d ''choices'' of
        None \<Rightarrow> []
      | Some v \<Rightarrow> (case py_iter v of Inl e \<Rightarrow> [] | Inr cs \<Rightarrow> contents_read cs))"
| "fragments _ = []"

fun well_formed_chunk :: "json \<Rightarrow> bool" where
  \<comment> \<open>a chunk of the data model: an object whose \<^verbatim>\<open>choices\<close>, when present, is a list of
      choices that each yield a content string (the empty one when \<^verbatim>\<open>delta\<close> or
      \<^verbatim>\<open>content\<close> is absent)\<close>
  "well_formed_chunk (JObj d) =
     (case map_of d ''choices'' of
        None \<Rightarrow> True
      | Some (JArr cs) \<Rightarrow> list_all (\<lambda>c. \<not> isl (delta_content c)) cs
      | Some _ \<Rightarrow> False)"
| "well_formed_chunk _ = False"

section \<open>Notions for stating the properties\<close>

definition model_field :: "json \<Rightarrow> json option" where
  \<comment> \<open>the \<^verbatim>\<open>model\<close> a chunk carries\<close>
  "model_field chunk = (case chunk of JObj d \<Rightarrow> map_of d ''model'' | _ \<Rightarrow> None)"

definition slot_of :: "(nat \<Rightarrow> 'a \<Rightarrow> error + 'b) \<Rightarrow> 'a list \<Rightarrow> nat \<Rightarrow> 'b option" where
  \<comment> \<open>what the call for the input at index \<open>i\<close> leaves in its slot\<close>
  "slot_of single inputs i = (case single i (inputs ! i) of Inl e \<Rightarrow> None | Inr r \<Rightarrow> Some r)"

definition example_exchange :: "nat \<Rightarrow> post_result" where
  \<comment> \<open>the exchanges of a batch whose second call is answered with status 500\<close>
  "example_exchange i =
     Inr \<lparr>status_code = (if i = 1 then 500 else 200), text_body = ''busy'',
          iter_lines = [], broken = None\<rparr>"

definition example_client :: Client where
  "example_client = \<lparr>session_name = ''s'', enable_evaluations = True, project_name = ''p''\<rparr>"

text \<open>
  Streams for the examples: \<open>content_line s\<close> is the line of a chunk with one choice whose
  content is \<open>s\<close>, with the quotes and backslashes of \<open>s\<close> escaped as JSON asks, and
  \<open>ok_response\<close> a response with status 200.
\<close>

fun json_escape :: "string \<Rightarrow> string" where
  "json_escape [] = []"
| "json_escape (c # cs) =
     (if c = CHR 0x22 \<or> c = CHR 0x5C then CHR 0x5C # c # json_escape cs
      else c # json_escape cs)"

definition content_line :: "string \<Rightarrow> string" where
  \<open>content_line content =
     ''data: {"choices":[{"delta":{"content":"'' @ json_escape content @ ''"}}]}''\<close>

definition ok_response :: "string list \<Rightarrow> string option \<Rightarrow> http_response" where
  "ok_response ls b = \<lparr>status_code = 200, text_body = [], iter_lines = ls, broken = b\<rparr>"

text \<open>
  The two states of the accumulating assembler of \<^verbatim>\<open>Client.chat\<close>, read off its two
  locals \<^verbatim>\<open>in_evaluation_block\<close> and \<^verbatim>\<open>evaluation_buffer\<close>. \<open>next_mode\<close> is the state after a
  fragment, \<open>normal_fragments\<close> the fragments of a sequence that are read in state
  \<open>Normal\<close> and do not open an evaluation block, and \<open>absorb\<close> what a fragment does to
  state, response and evaluations together. \<open>object_decoder\<close> says that a text starting
  with a brace decodes to a dictionary if it decodes at all, as it does for
  \<^verbatim>\<open>json.loads\<close>.
\<close>

datatype mode = Normal | AccumulatingEvaluation string

definition mode_of :: "client_locals \<Rightarrow> mode" where
  "mode_of s =
     (if in_evaluation_block s then AccumulatingEvaluation (evaluation_buffer s) else Normal)"

fun next_mode :: "(string \<Rightarrow> json option) \<Rightarrow> mode \<Rightarrow> string \<Rightarrow> mode" where
  "next_mode loads m f =
     (if is_evaluation_start f then AccumulatingEvaluation f
      else case m of
             Normal \<Rightarrow> Normal
           | AccumulatingEvaluation buf \<Rightarrow>
               (case loads (buf @ f) of
                  None \<Rightarrow> AccumulatingEvaluation (buf @ f)
                | Some eval_obj \<Rightarrow> Normal))"

fun normal_fragments :: "(string \<Rightarrow> json option) \<Rightarrow> mode \<Rightarrow> string list \<Rightarrow> string list" where
  "normal_fragments loads m [] = []"
| "normal_fragments loads m (f # fs) =
     (if m = Normal \<and> \<not> is_evaluation_start f then [f] else []) @
     normal_fragments loads (next_mode loads m f) fs"

fun absorb :: "(string \<Rightarrow> json option) \<Rightarrow> mode \<times> string \<times> json \<Rightarrow> string \<Rightarrow> mode \<times> string \<times> json" where
  "absorb loads (m, response, evs) f =
     (next_mode loads m f,
      (if m = Normal \<and> \<not> is_evaluation_start f then response @ f else response),
      (if is_evaluation_start f then evs
       else case m of
              Normal \<Rightarrow> evs
            | AccumulatingEvaluation buf \<Rightarrow>
                (case loads (buf @ f) of
                   Some (JObj p) \<Rightarrow> (case map_of p ''evaluations'' of None \<Rightarrow> JNull | Some v \<Rightarrow> v)
                 | _ \<Rightarrow> evs)))"

definition view_of :: "client_locals \<Rightarrow> mode \<times> string \<times> json" where
  "view_of s = (mode_of s, stitched_response s, evaluations s)"

definition object_decoder :: "(string \<Rightarrow> json option) \<Rightarrow> bool" where
  "object_decoder loads = (\<forall>s v. startswith ''{'' s \<and> loads s = Some v \<longrightarrow> (\<exists>d. v = JObj d))"

definition opens_object :: "mode \<Rightarrow> bool" where
  "opens_object m = (case m of Normal \<Rightarrow> True | AccumulatingEvaluation buf \<Rightarrow> startswith ''{'' buf)"

section \<open>Lines that do not decode\<close>

lemma handle_line_chunk_of:
  "handle_line loads body st line =
     (case chunk_of loads line of None \<Rightarrow> st | Some c \<Rightarrow> handle_chunk body c st)"
  by (simp add: handle_line_def chunk_of_def Let_def)

lemma handle_line_undecodable:
  "loads (strip (drop 5 bad)) = None \<Longrightarrow> handle_line loads body st bad = st"
  by (simp add: handle_line_def Let_def)

text \<open>
  Claim C6. A line whose payload fails to decode is discarded and the lines after it are
  processed as if it had not been there: in both clients the locals after the stream, and
  with them the outcome of the call, are those of the stream without that line. For the
  lines \<open>[valid, "data: not-json", valid]\<close> the result holds two raw chunks and the response
  of the two valid chunks.
\<close>

theorem malformed_line_discarded:
  assumes "loads (strip (drop 5 bad)) = None"
  shows "labs_lines loads st (xs @ bad # ys) = labs_lines loads st (xs @ ys)
       \<and> client_lines loads stream st' (xs @ bad # ys) = client_lines loads stream st' (xs @ ys)
       \<and> LLMLabsClient_chat loads prompt mv un mt (Inr (response\<lparr>iter_lines := xs @ bad # ys\<rparr>))
         = LLMLabsClient_chat loads prompt mv un mt (Inr (response\<lparr>iter_lines := xs @ ys\<rparr>))
       \<and> Client_chat loads self prompt stream (Inr (response\<lparr>iter_lines := xs @ bad # ys\<rparr>))
         = Client_chat loads self prompt stream (Inr (response\<lparr>iter_lines := xs @ ys\<rparr>))"
proof -
  have l: "labs_lines loads s (xs @ bad # ys) = labs_lines loads s (xs @ ys)" for s
    using assms by (simp add: labs_lines_def handle_line_undecodable)
  have c: "client_lines loads b s (xs @ bad # ys) = client_lines loads b s (xs @ ys)" for s b
    using assms by (simp add: client_lines_def handle_line_undecodable)
  show ?thesis
    by (simp add: l c LLMLabsClient_chat_def Client_chat_def labs_check_status_def)
qed

theorem malformed_line_discarded_witness:
  \<open>json_loads (strip (drop 5 ''data: not-json'')) = None
   \<and> labs_lines json_loads labs_init
       ([''data: {"choices":[{"delta":{"content":"Hel"}}]}''] @ ''data: not-json'' #
        [''data: {"choices":[{"delta":{"content":"lo"}}]}''])
     = \<lparr>results =
          [JObj [(''choices'', JArr [JObj [(''delta'', JObj [(''content'', JStr ''Hel'')])]])],
           JObj [(''choices'', JArr [JObj [(''delta'', JObj [(''content'', JStr ''lo'')])]])]],
        stitched_response = ''Hello'', evaluations = JNull, trace_id = JNull, model = JNull\<rparr>
   \<and> client_lines json_loads False client_init
       ([''data: {"choices":[{"delta":{"content":"Hel"}}]}''] @ ''data: not-json'' #
        [''data: {"choices":[{"delta":{"content":"lo"}}]}''])
     = \<lparr>results =
          [JObj [(''choices'', JArr [JObj [(''delta'', JObj [(''content'', JStr ''Hel'')])]])],
           JObj [(''choices'', JArr [JObj [(''delta'', JObj [(''content'', JStr ''lo'')])]])]],
        stitched_response = ''Hello'', evaluations = JNull, trace_id = JNull, model = JNull,
        evaluation_buffer = [], in_evaluation_block = False, printed = []\<rparr>\<close>
proof -
  have h: \<open>json_loads (strip (drop 5 ''data: not-json'')) = None\<close>
    by code_simp
  have l: \<open>labs_lines json_loads labs_init
             ([''data: {"choices":[{"delta":{"content":"Hel"}}]}''] @
              [''data: {"choices":[{"delta":{"content":"lo"}}]}''])
     = \<lparr>results =
          [JObj [(''choices'', JArr [JObj [(''delta'', JObj [(''content'', JStr ''Hel'')])]])],
           JObj [(''choices'', JArr [JObj [(''delta'', JObj [(''content'', JStr ''lo'')])]])]],
        stitched_response = ''Hello'', evaluations = JNull, trace_id = JNull, model = JNull\<rparr>\<close>
    by code_simp
  have c: \<open>client_lines json_loads False client_init
             ([''data: {"choices":[{"delta":{"content":"Hel"}}]}''] @
              [''data: {"choices":[{"delta":{"content":"lo"}}]}''])
     = \<lparr>results =
          [JObj [(''choices'', JArr [JObj [(''delta'', JObj [(''content'', JStr ''Hel'')])]])],
           JObj [(''choices'', JArr [JObj [(''delta'', JObj [(''content'', JStr ''lo'')])]])]],
        stitched_response = ''Hello'', evaluations = JNull, trace_id = JNull, model = JNull,
        evaluation_buffer = [], in_evaluation_block = False, printed = []\<rparr>\<close>
    by code_simp
  from malformed_line_discarded [where loads = json_loads and bad = \<open>''data: not-json''\<close>
      and st = labs_init and st' = client_init and stream = False
      and xs = \<open>[''data: {"choices":[{"delta":{"content":"Hel"}}]}'']\<close>
      and ys = \<open>[''data: {"choices":[{"delta":{"content":"lo"}}]}'']\<close>, OF h]
  show ?thesis
    using h l c by presburger
qed

section \<open>Status codes\<close>

text \<open>
  Claim C8, as amended. A status outside 200..299 makes every operation raise
  \<^verbatim>\<open>ValueError\<close> with a message that ends in the status code, a colon and the body text as
  it came. Only \<^verbatim>\<open>LLMLabsClient.chat\<close> tells the ranges apart, by the words the message
  starts with; \<^verbatim>\<open>Client.chat\<close>, \<^verbatim>\<open>Client.evaluate\<close> and \<^verbatim>\<open>Client.safety_evaluation\<close> use
  one wording for every such status.
\<close>

theorem status_error_carries_code_and_body:
  assumes "\<not> ok_status (status_code r)" and "prompt \<noteq> []" and "strip prompt \<noteq> []"
    and "strip response \<noteq> []"
  shows "snd (LLMLabsClient_chat loads prompt (Some mv) (Some un) (Some mt) (Inr r)) =
           Inl (ValueError
                  ((if 400 \<le> status_code r \<and> status_code r < 500 then ''Client error ''
                    else if 500 \<le> status_code r \<and> status_code r < 600 then ''Server error ''
                    else ''Unexpected status code '')
                   @ str_int (status_code r) @ '': '' @ text_body r))
       \<and> snd (Client_chat loads self prompt stream (Inr r)) =
           Inl (ValueError (''API error '' @ str_int (status_code r) @ '': '' @ text_body r))
       \<and> Client_evaluate loads self prompt response tid uuid4 (Inr r) =
           Inl (ValueError (''Evaluation API error '' @ str_int (status_code r) @ '': '' @
                            text_body r))
       \<and> Client_safety_evaluation loads self prompt tid uuid4 (Inr r) =
           Inl (ValueError (''Safety API error '' @ str_int (status_code r) @ '': '' @
                            text_body r))"
  using assms
  by (simp add: LLMLabsClient_chat_def labs_check_status_def Client_chat_def
      Client_evaluate_def Client_safety_evaluation_def Let_def)

theorem status_error_carries_code_and_body_witness:
  "\<not> ok_status (status_code \<lparr>status_code = 404, text_body = ''not found'', iter_lines = [],
                              broken = None\<rparr>)
   \<and> ''hi'' \<noteq> [] \<and> strip ''hi'' \<noteq> [] \<and> strip ''yo'' \<noteq> []
   \<and> snd (LLMLabsClient_chat json_loads ''hi'' (Some ''v'') (Some ''n'') (Some ''t'')
        (Inr \<lparr>status_code = 404, text_body = ''not found'', iter_lines = [], broken = None\<rparr>))
     = Inl (ValueError ''Client error 404: not found'')
   \<and> Client_evaluate json_loads
        \<lparr>session_name = ''s'', enable_evaluations = True, project_name = ''p''\<rparr>
        ''hi'' ''yo'' JNull ''u''
        (Inr \<lparr>status_code = 404, text_body = ''not found'', iter_lines = [], broken = None\<rparr>)
     = Inl (ValueError ''Evaluation API error 404: not found'')"
proof -
  let ?r = "\<lparr>status_code = 404, text_body = ''not found'', iter_lines = [], broken = None\<rparr>"
  have h1: "\<not> ok_status (status_code ?r)" by (simp add: ok_status_def)
  have h2: "''hi'' \<noteq> []" by simp
  have h3: "strip ''hi'' \<noteq> []" by code_simp
  have h4: "strip ''yo'' \<noteq> []" by code_simp
  have s: "str_int 404 = ''404''" by code_simp
  show ?thesis
    using status_error_carries_code_and_body [OF h1 h2 h3 h4, of json_loads "''v''" "''n''" "''t''"
        "\<lparr>session_name = ''s'', enable_evaluations = True, project_name = ''p''\<rparr>" False JNull
        "''u''"]
      h1 h3 h4
    by (simp add: s)
qed

text \<open>
  Claim C8 as stated fails on the calls that do not stream: \<^verbatim>\<open>Client.evaluate\<close> answers
  404 and 500 with the same wording, where \<^verbatim>\<open>LLMLabsClient.chat\<close> says \<^verbatim>\<open>Client error\<close>.
\<close>

theorem evaluate_status_counterexample:
  "Client_evaluate json_loads
        \<lparr>session_name = ''s'', enable_evaluations = True, project_name = ''p''\<rparr>
        ''hi'' ''yo'' JNull ''u''
        (Inr \<lparr>status_code = 404, text_body = ''not found'', iter_lines = [], broken = None\<rparr>)
     = Inl (ValueError ''Evaluation API error 404: not found'')
   \<and> Client_evaluate json_loads
        \<lparr>session_name = ''s'', enable_evaluations = True, project_name = ''p''\<rparr>
        ''hi'' ''yo'' JNull ''u''
        (Inr \<lparr>status_code = 500, text_body = ''not found'', iter_lines = [], broken = None\<rparr>)
     = Inl (ValueError ''Evaluation API error 500: not found'')
   \<and> labs_check_status
        \<lparr>status_code = 404, text_body = ''not found'', iter_lines = [], broken = None\<rparr>
     = Inl (ValueError ''Client error 404: not found'')"
  by code_simp

section \<open>Trace identifiers of the evaluation calls\<close>

text \<open>
  Claim C10. \<^verbatim>\<open>evaluate\<close> and \<^verbatim>\<open>safety_evaluation\<close> return the trace identifier the
  caller passed when there is one (a non-empty value), and the generated one otherwise: a
  \<^verbatim>\<open>traceId\<close> in the body the server returned never replaces it, since the identifier
  handed to \<^verbatim>\<open>EvaluationResult\<close> is never empty. On the streaming path the order is
  the other way round: the \<^verbatim>\<open>traceId\<close> of a decoded evaluation payload replaces whatever
  the locals held.
\<close>

theorem evaluation_trace_id_precedence:
  assumes "uuid4 \<noteq> []"
  shows "(strip prompt \<noteq> [] \<and> strip response \<noteq> [] \<and> ok_status (status_code r)
            \<and> loads (text_body r) = Some (JObj d) \<longrightarrow>
          Client_evaluate loads self prompt response tid uuid4 (Inr r) =
            Inr \<lparr>er_evaluations = (case map_of d ''evaluations'' of None \<Rightarrow> JArr [] | Some v \<Rightarrow> v),
                 er_trace_id = (if truthy tid then tid else JStr uuid4),
                 er_prompt = JStr prompt, er_response = JStr response\<rparr>
          \<and> Client_safety_evaluation loads self prompt tid uuid4 (Inr r) =
            Inr \<lparr>er_evaluations = (case map_of d ''evaluations'' of None \<Rightarrow> JArr [] | Some v \<Rightarrow> v),
                 er_trace_id = (if truthy tid then tid else JStr uuid4),
                 er_prompt = JStr prompt, er_response = JNull\<rparr>)
       \<and> (\<forall>res. Client_evaluate loads self prompt response tid uuid4 post = Inr res \<longrightarrow>
                 er_trace_id res = (if truthy tid then tid else JStr uuid4))
       \<and> (\<forall>res. Client_safety_evaluation loads self prompt tid uuid4 post = Inr res \<longrightarrow>
                 er_trace_id res = (if truthy tid then tid else JStr uuid4))
       \<and> (is_evaluation_start content \<and> loads content = Some (JObj p)
            \<and> map_of p ''traceId'' = Some t \<longrightarrow>
          trace_id (labs_content loads st content) = t)
       \<and> (in_evaluation_block st' \<and> \<not> is_evaluation_start content
            \<and> loads (evaluation_buffer st' @ content) = Some (JObj p)
            \<and> map_of p ''traceId'' = Some t \<longrightarrow>
          trace_id (locals_of (client_content loads stream st' content)) = t)"
proof -
  have a: "truthy (py_or tid (JStr uuid4))"
    using assms by (simp add: py_or_def)
  have b: "py_or tid (JStr uuid4) = (if truthy tid then tid else JStr uuid4)"
    by (simp add: py_or_def)
  have i: "EvaluationResult_init x (py_or tid (JStr uuid4)) y z = Inr res \<Longrightarrow>
           er_trace_id res = (if truthy tid then tid else JStr uuid4)" for x y z res
    using a unfolding EvaluationResult_init_def b
    by (auto split: sum.splits if_splits simp: b)
  have 1: "Client_evaluate loads self prompt response tid uuid4 post = Inr res \<Longrightarrow>
        er_trace_id res = (if truthy tid then tid else JStr uuid4)" for res
    unfolding Client_evaluate_def Let_def
    by (auto split: if_splits sum.splits option.splits dest: i)
  have 2: "Client_safety_evaluation loads self prompt tid uuid4 post = Inr res \<Longrightarrow>
        er_trace_id res = (if truthy tid then tid else JStr uuid4)" for res
    unfolding Client_safety_evaluation_def Let_def
    by (auto split: if_splits sum.splits option.splits dest: i)
  have 3: "strip prompt \<noteq> [] \<and> strip response \<noteq> [] \<and> ok_status (status_code r)
            \<and> loads (text_body r) = Some (JObj d) \<longrightarrow>
          Client_evaluate loads self prompt response tid uuid4 (Inr r) =
            Inr \<lparr>er_evaluations = (case map_of d ''evaluations'' of None \<Rightarrow> JArr [] | Some v \<Rightarrow> v),
                 er_trace_id = (if truthy tid then tid else JStr uuid4),
                 er_prompt = JStr prompt, er_response = JStr response\<rparr>
          \<and> Client_safety_evaluation loads self prompt tid uuid4 (Inr r) =
            Inr \<lparr>er_evaluations = (case map_of d ''evaluations'' of None \<Rightarrow> JArr [] | Some v \<Rightarrow> v),
                 er_trace_id = (if truthy tid then tid else JStr uuid4),
                 er_prompt = JStr prompt, er_response = JNull\<rparr>"
    using a by (simp add: Client_evaluate_def Client_safety_evaluation_def Let_def
        EvaluationResult_init_def b)
  have 4: "is_evaluation_start content \<and> loads content = Some (JObj p)
            \<and> map_of p ''traceId'' = Some t \<longrightarrow>
          trace_id (labs_content loads st content) = t"
    by (simp add: labs_content_def)
  have 5: "in_evaluation_block st' \<and> \<not> is_evaluation_start content
            \<and> loads (evaluation_buffer st' @ content) = Some (JObj p)
            \<and> map_of p ''traceId'' = Some t \<longrightarrow>
          trace_id (locals_of (client_content loads stream st' content)) = t"
    by (simp add: client_content_def Let_def)
  show ?thesis
    using 1 2 3 4 5 by blast
qed


theorem evaluation_trace_id_precedence_witness:
  \<open>''0b5c'' \<noteq> []
   \<and> Client_evaluate json_loads example_client ''hi'' ''yo'' (JStr ''mine'') ''0b5c''
       (Inr \<lparr>status_code = 200, text_body = ''{"evaluations":[],"traceId":"theirs"}'',
             iter_lines = [], broken = None\<rparr>)
     = Inr \<lparr>er_evaluations = JArr [], er_trace_id = JStr ''mine'', er_prompt = JStr ''hi'',
            er_response = JStr ''yo''\<rparr>
   \<and> Client_safety_evaluation json_loads example_client ''hi'' JNull ''0b5c''
       (Inr \<lparr>status_code = 200, text_body = ''{"evaluations":[],"traceId":"theirs"}'',
             iter_lines = [], broken = None\<rparr>)
     = Inr \<lparr>er_evaluations = JArr [], er_trace_id = JStr ''0b5c'', er_prompt = JStr ''hi'',
            er_response = JNull\<rparr>
   \<and> trace_id (labs_content json_loads labs_init ''{"evaluations":[],"traceId":"theirs"}'')
     = JStr ''theirs''\<close>
proof -
  have u: \<open>''0b5c'' \<noteq> []\<close> by simp
  have h: \<open>strip ''hi'' \<noteq> [] \<and> strip ''yo'' \<noteq> []
     \<and> ok_status (status_code \<lparr>status_code = 200,
           text_body = ''{"evaluations":[],"traceId":"theirs"}'', iter_lines = [],
           broken = None\<rparr>)
     \<and> json_loads (text_body \<lparr>status_code = 200,
           text_body = ''{"evaluations":[],"traceId":"theirs"}'', iter_lines = [],
           broken = None\<rparr>)
       = Some (JObj [(''evaluations'', JArr []), (''traceId'', JStr ''theirs'')])\<close>
    by code_simp
  have s: \<open>is_evaluation_start ''{"evaluations":[],"traceId":"theirs"}''
     \<and> json_loads ''{"evaluations":[],"traceId":"theirs"}''
       = Some (JObj [(''evaluations'', JArr []), (''traceId'', JStr ''theirs'')])
     \<and> map_of [(''evaluations'', JArr []), (''traceId'', JStr ''theirs'')] ''traceId''
       = Some (JStr ''theirs'')\<close>
    by code_simp
  have e: \<open>(case map_of [(''evaluations'', JArr []), (''traceId'', JStr ''theirs'')]
                 ''evaluations'' of None \<Rightarrow> JArr [] | Some v \<Rightarrow> v) = JArr []\<close>
    by simp
  note t1 = evaluation_trace_id_precedence [OF u, where loads = json_loads
      and prompt = \<open>''hi''\<close> and response = \<open>''yo''\<close> and tid = \<open>JStr ''mine''\<close>
      and self = example_client
      and r = \<open>\<lparr>status_code = 200, text_body = ''{"evaluations":[],"traceId":"theirs"}'',
                 iter_lines = [], broken = None\<rparr>\<close>
      and d = \<open>[(''evaluations'', JArr []), (''traceId'', JStr ''theirs'')]\<close>]
  note t2 = evaluation_trace_id_precedence [OF u, where loads = json_loads
      and prompt = \<open>''hi''\<close> and response = \<open>''yo''\<close> and tid = JNull
      and self = example_client and st = labs_init
      and content = \<open>''{"evaluations":[],"traceId":"theirs"}''\<close>
      and p = \<open>[(''evaluations'', JArr []), (''traceId'', JStr ''theirs'')]\<close>
      and t = \<open>JStr ''theirs''\<close>
      and r = \<open>\<lparr>status_code = 200, text_body = ''{"evaluations":[],"traceId":"theirs"}'',
                 iter_lines = [], broken = None\<rparr>\<close>
      and d = \<open>[(''evaluations'', JArr []), (''traceId'', JStr ''theirs'')]\<close>]
  have a: \<open>Client_evaluate json_loads example_client ''hi'' ''yo'' (JStr ''mine'') ''0b5c''
       (Inr \<lparr>status_code = 200, text_body = ''{"evaluations":[],"traceId":"theirs"}'',
             iter_lines = [], broken = None\<rparr>)
     = Inr \<lparr>er_evaluations = JArr [], er_trace_id = JStr ''mine'', er_prompt = JStr ''hi'',
            er_response = JStr ''yo''\<rparr>\<close>
    using t1 h by (simp only: e truthy.simps) simp
  have b: \<open>Client_safety_evaluation json_loads example_client ''hi'' JNull ''0b5c''
       (Inr \<lparr>status_code = 200, text_body = ''{"evaluations":[],"traceId":"theirs"}'',
             iter_lines = [], broken = None\<rparr>)
     = Inr \<lparr>er_evaluations = JArr [], er_trace_id = JStr ''0b5c'', er_prompt = JStr ''hi'',
            er_response = JNull\<rparr>\<close>
    using t2 h by (simp only: e truthy.simps) simp
  have c: \<open>trace_id (labs_content json_loads labs_init ''{"evaluations":[],"traceId":"theirs"}'')
     = JStr ''theirs''\<close>
    using t2 s by blast
  show ?thesis
    using u a b c by blast
qed

section \<open>Batches\<close>

lemma foldl_update_slots:
  "foldl (\<lambda>res i. res[i := g i]) acc order =
     map (\<lambda>i. if i \<in> set order then g i else acc ! i) [0..<length acc]"
proof (induction order arbitrary: acc)
  case Nil
  show ?case by (simp add: map_nth)
next
  case (Cons i order)
  show ?case
    by (simp add: Cons.IH nth_list_update)
qed

lemma fill_slots_all:
  assumes "set order = {0..<length inputs}"
  shows "fill_slots single inputs order =
           map (\<lambda>i. case single i (inputs ! i) of Inl e \<Rightarrow> None | Inr r \<Rightarrow> Some r)
             [0..<length inputs]"
  unfolding fill_slots_def foldl_update_slots using assms by simp

lemma map_filter_map_id:
  "List.map_filter (\<lambda>r. r) (map g xs) = List.map_filter g xs"
  by (induction xs) (simp_all add: map_filter_simps split: option.splits)

text \<open>
  Claim C7, as amended. A batch returns the results of the calls that succeeded, in the
  order of their inputs, whatever the order the calls completed in; the call that raised
  leaves \<^verbatim>\<open>None\<close> in its slot and the slot is then filtered out, so the list is shorter
  than the input by the number of failures.
\<close>

theorem batch_returns_successes_in_input_order:
  assumes "inputs \<noteq> []" and "0 < max_workers" and "set order = {0..<length inputs}"
  shows "batch message single inputs max_workers order =
           Inr (List.map_filter (slot_of single inputs) [0..<length inputs])
       \<and> Client_batch_chat loads self post inputs max_workers order =
           Inr (List.map_filter
                  (slot_of (\<lambda>i prompt. snd (Client_chat loads self prompt False (post i))) inputs)
                  [0..<length inputs])
       \<and> Client_batch_safety_evaluation loads self uuid4 post inputs max_workers order =
           Inr (List.map_filter
                  (slot_of (\<lambda>i prompt. Client_safety_evaluation loads self prompt JNull (uuid4 i)
                                          (post i)) inputs)
                  [0..<length inputs])
       \<and> (pairs \<noteq> [] \<and> set order' = {0..<length pairs} \<longrightarrow>
          Client_batch_evaluate loads self uuid4 post pairs max_workers order' =
           Inr (List.map_filter
                  (slot_of (\<lambda>i pair. Client_evaluate loads self (fst pair) (snd pair) JNull
                                        (uuid4 i) (post i)) pairs)
                  [0..<length pairs]))"
proof -
  have g: "xs \<noteq> [] \<Longrightarrow> set ord = {0..<length xs} \<Longrightarrow>
           batch msg f xs max_workers ord = Inr (List.map_filter (slot_of f xs) [0..<length xs])"
    for msg and f :: "nat \<Rightarrow> 'x \<Rightarrow> error + 'y" and xs ord
    using assms(2)
    by (simp add: batch_def fill_slots_all map_filter_map_id slot_of_def [abs_def])
  show ?thesis
    unfolding Client_batch_chat_def Client_batch_safety_evaluation_def Client_batch_evaluate_def
    using assms(1,3) by (simp add: g)
qed

theorem batch_returns_successes_in_input_order_witness:
  "[''a'', ''b'', ''c''] \<noteq> [] \<and> (0::int) < 3 \<and> set [2, 0, 1] = {0..<length [''a'', ''b'', ''c'']}
   \<and> set [1, 2, 0] = {0..<length [''a'', ''b'', ''c'']}
   \<and> Client_batch_chat json_loads example_client example_exchange [''a'', ''b'', ''c''] 3 [2, 0, 1] =
     Client_batch_chat json_loads example_client example_exchange [''a'', ''b'', ''c''] 3 [1, 2, 0]"
proof -
  have h1: "[''a'', ''b'', ''c''] \<noteq> []" by simp
  have h2: "(0::int) < 3" by simp
  have h3: "set [2, 0, 1] = {0..<length [''a'', ''b'', ''c'']}" by auto
  have h4: "set [1, 2, 0] = {0..<length [''a'', ''b'', ''c'']}" by auto
  have a: "Client_batch_chat json_loads example_client example_exchange [''a'', ''b'', ''c''] 3
             [2, 0, 1] =
           Inr (List.map_filter
                  (slot_of (\<lambda>i prompt. snd (Client_chat json_loads example_client prompt False
                                               (example_exchange i))) [''a'', ''b'', ''c''])
                  [0..<length [''a'', ''b'', ''c'']])"
    using batch_returns_successes_in_input_order [OF h1 h2 h3] by blast
  have b: "Client_batch_chat json_loads example_client example_exchange [''a'', ''b'', ''c''] 3
             [1, 2, 0] =
           Inr (List.map_filter
                  (slot_of (\<lambda>i prompt. snd (Client_chat json_loads example_client prompt False
                                               (example_exchange i))) [''a'', ''b'', ''c''])
                  [0..<length [''a'', ''b'', ''c'']])"
    using batch_returns_successes_in_input_order [OF h1 h2 h4] by blast
  show ?thesis
    by (intro conjI h1 h2 h3 h4) (simp only: a b)
qed


text \<open>
  Claim C7 as stated fails: of three prompts whose second call raises, the list returned
  holds two responses, not three slots of which one is empty.
\<close>

theorem batch_failed_item_counterexample:
  "Client_batch_chat json_loads example_client example_exchange [''a'', ''b'', ''c''] 3 [2, 0, 1] =
     Inr [\<lparr>cr_response = [], cr_prompt = ''a'', cr_evaluations = None, cr_enable_evaluations = True,
           cr_trace_id = JNull, cr_model = JNull, cr_raw_chunks = []\<rparr>,
          \<lparr>cr_response = [], cr_prompt = ''c'', cr_evaluations = None, cr_enable_evaluations = True,
           cr_trace_id = JNull, cr_model = JNull, cr_raw_chunks = []\<rparr>]
   \<and> length [\<lparr>cr_response = [], cr_prompt = ''a'', cr_evaluations = None,
               cr_enable_evaluations = True, cr_trace_id = JNull, cr_model = JNull,
               cr_raw_chunks = []\<rparr>,
              \<lparr>cr_response = [], cr_prompt = ''c'', cr_evaluations = None,
               cr_enable_evaluations = True, cr_trace_id = JNull, cr_model = JNull,
               cr_raw_chunks = []\<rparr>] \<noteq> 3"
  by code_simp

section \<open>The model name\<close>

lemma for_choices_preserves:
  assumes "\<And>s c. P s \<Longrightarrow> P (locals_of (body s c))"
  shows "P st \<Longrightarrow> P (locals_of (for_choices body cs st))"
proof (induction cs arbitrary: st)
  case Nil
  then show ?case by simp
next
  case (Cons c cs)
  from assms [OF Cons.prems, of c] show ?case
    by (cases "body st c") (auto intro: Cons.IH)
qed

lemma handle_choices_preserves:
  assumes "\<And>s c. P s \<Longrightarrow> P (locals_of (body s c))"
  shows "P st \<Longrightarrow> P (locals_of (handle_choices body chunk st))"
  using for_choices_preserves [of P body, OF assms]
  by (auto simp: handle_choices_def split: sum.splits)

lemma map_of_key_iff: "(k \<in> fst ` set d) = (map_of d k \<noteq> None)"
  by (simp add: map_of_eq_None_iff)

lemma capture_model_model:
  "model (locals_of (capture_model chunk st)) =
     (if truthy (model st) then model st
      else case model_field chunk of Some m \<Rightarrow> m | None \<Rightarrow> model st)"
  by (cases chunk)
     (auto simp: capture_model_def model_field_def map_of_key_iff split: sum.splits option.splits)

lemma capture_id_model: "model (locals_of (capture_id chunk st)) = model st"
  by (cases chunk) (auto simp: capture_id_def split: sum.splits option.splits)

lemma locals_of_and_then:
  "locals_of (and_then r f) = (case r of Inl x \<Rightarrow> snd x | Inr s \<Rightarrow> locals_of (f s))"
  by (cases r) (auto simp: and_then_def)

lemma model_handle_chunk:
  assumes pres: "\<And>s c. model (locals_of (body s c)) = model s"
  shows "model (handle_chunk body chunk st) =
     (if truthy (model st) then model st
      else case model_field chunk of Some m \<Rightarrow> m | None \<Rightarrow> model st)"
proof -
  let ?s0 = "st\<lparr>results := results st @ [chunk]\<rparr>"
  have hc: "model (locals_of (handle_choices body chunk s)) = model s" for s
    using handle_choices_preserves [of "\<lambda>x. model x = model s" body s chunk] pres by simp
  have ci: "model (locals_of (and_then (capture_id chunk s) (handle_choices body chunk))) = model s" for s
    using capture_id_model [of chunk s] hc
    by (cases "capture_id chunk s") (auto simp: and_then_def)
  have "model (handle_chunk body chunk st) = model (locals_of (capture_model chunk ?s0))"
    unfolding handle_chunk_def
    using ci by (cases "capture_model chunk ?s0") (auto simp: and_then_def)
  then show ?thesis
    by (simp add: capture_model_model split: option.splits)
qed

lemma labs_choice_model: "model (locals_of (labs_choice loads s c)) = model s"
  by (auto simp: labs_choice_def labs_content_def split: sum.splits option.splits)

lemma client_choice_model: "model (locals_of (client_choice loads stream s c)) = model s"
  by (auto simp: client_choice_def client_content_def Let_def split: sum.splits option.splits)

lemma model_handle_line:
  assumes pres: "\<And>s c. model (locals_of (body s c)) = model s"
  shows "model (handle_line loads body st l) =
     (if truthy (model st) then model st
      else case chunk_of loads l of
             None \<Rightarrow> model st
           | Some c \<Rightarrow> (case model_field c of Some m \<Rightarrow> m | None \<Rightarrow> model st))"
  by (simp add: handle_line_chunk_of model_handle_chunk [OF pres] split: option.splits)

lemma model_kept:
  assumes pres: "\<And>s c. model (locals_of (body s c)) = model s"
  shows "truthy (model st) \<Longrightarrow> model (foldl (handle_line loads body) st ls) = model st"
  by (induction ls arbitrary: st) (simp_all add: model_handle_line [OF pres])

lemma model_still_falsy:
  assumes pres: "\<And>s c. model (locals_of (body s c)) = model s"
  shows "\<not> truthy (model st) \<Longrightarrow>
         \<forall>c \<in> set (chunks loads pre). \<forall>m. model_field c = Some m \<longrightarrow> \<not> truthy m \<Longrightarrow>
         \<not> truthy (model (foldl (handle_line loads body) st pre))"
proof (induction pre arbitrary: st)
  case Nil
  then show ?case by simp
next
  case (Cons l pre)
  have a: "\<not> truthy (model (handle_line loads body st l))"
    using Cons.prems
    by (auto simp: model_handle_line [OF pres] chunks_def map_filter_simps split: option.splits)
  have b: "\<forall>c \<in> set (chunks loads pre). \<forall>m. model_field c = Some m \<longrightarrow> \<not> truthy m"
    using Cons.prems(2) by (auto simp: chunks_def map_filter_simps split: option.splits)
  show ?case
    using Cons.IH [OF a b] by simp
qed

lemma model_first_truthy:
  assumes pres: "\<And>s c. model (locals_of (body s c)) = model s"
    and "\<not> truthy (model st)"
    and "chunk_of loads l = Some c" and "model_field c = Some m" and "truthy m"
    and "\<forall>c' \<in> set (chunks loads pre). \<forall>m'. model_field c' = Some m' \<longrightarrow> \<not> truthy m'"
  shows "model (foldl (handle_line loads body) st (pre @ l # post)) = m"
proof -
  let ?s = "foldl (handle_line loads body) st pre"
  have "\<not> truthy (model ?s)"
    using model_still_falsy [OF pres assms(2) assms(6)] .
  then have "model (handle_line loads body ?s l) = m"
    using assms(3,4) by (simp add: model_handle_line [OF pres])
  then show ?thesis
    using assms(5) by (simp add: model_kept [OF pres])
qed

text \<open>
  Claim C9, as amended. The model name is captured while the local is falsy
  (\<^verbatim>\<open>if not model and ...\<close>): the result's \<^verbatim>\<open>model\<close> is the first value seen that Python
  counts as true, so an empty string (or \<^verbatim>\<open>null\<close>) met earlier does not count. Of two
  chunks with different non-empty model names the first wins.
\<close>

theorem model_first_truthy_wins:
  assumes "chunk_of loads l = Some c" and "model_field c = Some m" and "truthy m"
    and "\<forall>c' \<in> set (chunks loads pre). \<forall>m'. model_field c' = Some m' \<longrightarrow> \<not> truthy m'"
  shows "model (labs_lines loads labs_init (pre @ l # post)) = m
       \<and> model (client_lines loads stream client_init (pre @ l # post)) = m"
  using model_first_truthy [of "labs_choice loads" labs_init loads l c m pre post,
          OF labs_choice_model _ assms]
        model_first_truthy [of "client_choice loads stream" client_init loads l c m pre post,
          OF client_choice_model _ assms]
  by (simp add: labs_lines_def client_lines_def labs_init_def client_init_def)

theorem model_first_truthy_wins_witness:
  \<open>chunk_of json_loads ''data: {"model":"m1","choices":[]}''
     = Some (JObj [(''model'', JStr ''m1''), (''choices'', JArr [])])
   \<and> model_field (JObj [(''model'', JStr ''m1''), (''choices'', JArr [])]) = Some (JStr ''m1'')
   \<and> truthy (JStr ''m1'')
   \<and> chunks json_loads [''data: {"model":""}''] = [JObj [(''model'', JStr [])]]
   \<and> model_field (JObj [(''model'', JStr [])]) = Some (JStr [])
   \<and> \<not> truthy (JStr [])
   \<and> model (labs_lines json_loads labs_init
              ([''data: {"model":""}''] @ ''data: {"model":"m1","choices":[]}'' #
               [''data: {"model":"m2"}''])) = JStr ''m1''
   \<and> model (client_lines json_loads False client_init
              ([''data: {"model":""}''] @ ''data: {"model":"m1","choices":[]}'' #
               [''data: {"model":"m2"}''])) = JStr ''m1''\<close>
proof -
  have h1: \<open>chunk_of json_loads ''data: {"model":"m1","choices":[]}''
     = Some (JObj [(''model'', JStr ''m1''), (''choices'', JArr [])])\<close>
    by code_simp
  have h2: \<open>model_field (JObj [(''model'', JStr ''m1''), (''choices'', JArr [])])
     = Some (JStr ''m1'')\<close>
    by code_simp
  have h3: \<open>truthy (JStr ''m1'')\<close> by simp
  have c: \<open>chunks json_loads [''data: {"model":""}''] = [JObj [(''model'', JStr [])]]\<close>
    by code_simp
  have h4: \<open>\<forall>c' \<in> set (chunks json_loads [''data: {"model":""}'']).
        \<forall>m'. model_field c' = Some m' \<longrightarrow> \<not> truthy m'\<close>
    unfolding c by (simp add: model_field_def)
  from model_first_truthy_wins [OF h1 h2 h3 h4, of \<open>[''data: {"model":"m2"}'']\<close> False]
  show ?thesis
    using h1 h2 h3 c by (simp add: model_field_def)
qed

text \<open>
  Claim C9 as stated fails when the first model value seen is the empty string, which is
  not null: the second chunk's value replaces it.
\<close>

theorem model_empty_string_counterexample:
  \<open>chunks json_loads [''data: {"model":""}'', ''data: {"model":"b"}'']
     = [JObj [(''model'', JStr [])], JObj [(''model'', JStr ''b'')]]
   \<and> model (labs_lines json_loads labs_init [''data: {"model":""}'', ''data: {"model":"b"}''])
     = JStr ''b''
   \<and> model (client_lines json_loads False client_init
              [''data: {"model":""}'', ''data: {"model":"b"}''])
     = JStr ''b''\<close>
  by code_simp

section \<open>From lines to fragments\<close>

lemma chunks_Cons:
  "chunks loads (l # ls) =
     (case chunk_of loads l of None \<Rightarrow> chunks loads ls | Some c \<Rightarrow> c # chunks loads ls)"
  by (simp add: chunks_def map_filter_simps split: option.splits)

lemma chunks_Nil: "chunks loads [] = []"
  by (simp add: chunks_def map_filter_simps)

lemma chunks_append: "chunks loads (xs @ ys) = chunks loads xs @ chunks loads ys"
  by (induction xs) (simp_all add: chunks_Nil chunks_Cons split: option.splits)

text \<open>The chunk-level statements touch neither the response nor the evaluation state.\<close>

lemma capture_model_fields:
  "stitched_response (locals_of (capture_model chunk st)) = stitched_response st"
  "evaluations (locals_of (capture_model chunk st)) = evaluations st"
  "assembly.more (locals_of (capture_model chunk st)) = assembly.more st"
  by (auto simp: capture_model_def split: sum.splits)

lemma capture_id_fields:
  "stitched_response (locals_of (capture_id chunk st)) = stitched_response st"
  "evaluations (locals_of (capture_id chunk st)) = evaluations st"
  "assembly.more (locals_of (capture_id chunk st)) = assembly.more st"
  by (auto simp: capture_id_def split: sum.splits)

lemma py_contains_object: "py_contains k (JObj d) = Inr (map_of d k \<noteq> None)"
  by (simp add: map_of_eq_None_iff)

lemma capture_model_object:
  "capture_model (JObj d) s =
     Inr (if truthy (model s) then s
          else case map_of d ''model'' of None \<Rightarrow> s | Some m \<Rightarrow> s\<lparr>model := m\<rparr>)"
  by (simp add: capture_model_def py_contains_object del: py_contains.simps split: option.splits)

lemma capture_id_object:
  "capture_id (JObj d) s =
     Inr (case map_of d ''id'' of None \<Rightarrow> s | Some t \<Rightarrow> s\<lparr>trace_id := t\<rparr>)"
  by (simp add: capture_id_def py_contains_object del: py_contains.simps split: option.splits)

lemma handle_choices_object:
  "handle_choices body (JObj d) s =
     (case map_of d ''choices'' of
        None \<Rightarrow> Inr s
      | Some v \<Rightarrow> (case py_iter v of Inl e \<Rightarrow> Inl (e, s) | Inr cs \<Rightarrow> for_choices body cs s))"
  by (simp add: handle_choices_def py_contains_object del: py_contains.simps split: option.splits)

text \<open>
  What the \<^verbatim>\<open>try\<close> of a chunk comes to: the metadata is captured, and if the chunk is an
  object the choices are run through until one raises.
\<close>

lemma handle_chunk_object:
  "handle_chunk body (JObj d) st =
     (let s1 = st\<lparr>results := results st @ [JObj d]\<rparr>;
          s2 = (if truthy (model s1) then s1
                else case map_of d ''model'' of None \<Rightarrow> s1 | Some m \<Rightarrow> s1\<lparr>model := m\<rparr>);
          s3 = (case map_of d ''id'' of None \<Rightarrow> s2 | Some t \<Rightarrow> s2\<lparr>trace_id := t\<rparr>)
      in case map_of d ''choices'' of
           None \<Rightarrow> s3
         | Some v \<Rightarrow> (case py_iter v of Inl e \<Rightarrow> s3 | Inr cs \<Rightarrow> locals_of (for_choices body cs s3)))"
  by (simp add: handle_chunk_def capture_model_object capture_id_object handle_choices_object
        and_then_def Let_def split: option.splits sum.splits)

lemma handle_choices_not_object:
  "\<forall>d. chunk \<noteq> JObj d \<Longrightarrow> locals_of (handle_choices body chunk s) = s"
  by (cases chunk) (simp_all add: handle_choices_def)

lemma capture_model_shape: "\<exists>m. locals_of (capture_model chunk s) = s\<lparr>model := m\<rparr>"
proof (cases "locals_of (capture_model chunk s) = s")
  case True
  then have "locals_of (capture_model chunk s) = s\<lparr>model := model s\<rparr>" by simp
  then show ?thesis ..
next
  case False
  then show ?thesis
    by (auto simp: capture_model_def split: sum.splits if_splits)
qed

lemma capture_id_shape: "\<exists>t. locals_of (capture_id chunk s) = s\<lparr>trace_id := t\<rparr>"
proof (cases "locals_of (capture_id chunk s) = s")
  case True
  then have "locals_of (capture_id chunk s) = s\<lparr>trace_id := trace_id s\<rparr>" by simp
  then show ?thesis ..
next
  case False
  then show ?thesis
    by (auto simp: capture_id_def split: sum.splits if_splits)
qed

lemma handle_chunk_not_object:
  assumes "\<forall>d. chunk \<noteq> JObj d"
  shows "\<exists>m t. handle_chunk body chunk st =
                st\<lparr>results := results st @ [chunk], model := m, trace_id := t\<rparr>"
proof -
  let ?s0 = "st\<lparr>results := results st @ [chunk]\<rparr>"
  obtain m where m: "locals_of (capture_model chunk ?s0) = ?s0\<lparr>model := m\<rparr>"
    using capture_model_shape by blast
  show ?thesis
  proof (cases "capture_model chunk ?s0")
    case (Inl x)
    then have "handle_chunk body chunk st = locals_of (capture_model chunk ?s0)"
      by (cases x) (simp add: handle_chunk_def and_then_def)
    then have "handle_chunk body chunk st =
               st\<lparr>results := results st @ [chunk], model := m, trace_id := trace_id st\<rparr>"
      using m by simp
    then show ?thesis by blast
  next
    case (Inr s1)
    then have s1: "s1 = ?s0\<lparr>model := m\<rparr>" using m by simp
    obtain t where t: "locals_of (capture_id chunk s1) = s1\<lparr>trace_id := t\<rparr>"
      using capture_id_shape by blast
    have "handle_chunk body chunk st = locals_of (capture_id chunk s1)"
    proof (cases "capture_id chunk s1")
      case (Inl y)
      then show ?thesis
        using Inr by (cases y) (simp add: handle_chunk_def and_then_def)
    next
      case (Inr s2)
      then show ?thesis
        using \<open>capture_model chunk ?s0 = Inr s1\<close> handle_choices_not_object [OF assms, of body s2]
        by (simp add: handle_chunk_def and_then_def)
    qed
    then have "handle_chunk body chunk st =
               st\<lparr>results := results st @ [chunk], model := m, trace_id := t\<rparr>"
      using t s1 by simp
    then show ?thesis by blast
  qed
qed

section \<open>The response of a stream without evaluation markers\<close>

lemma labs_content_response:
  "stitched_response (labs_content loads s f) =
     stitched_response s @ (if is_evaluation_start f then [] else f)"
  by (simp add: labs_content_def split: option.splits sum.splits)

lemma labs_choice_cases:
  "delta_content c = Inl e \<Longrightarrow> labs_choice loads s c = Inl (e, s)"
  "delta_content c = Inr f \<Longrightarrow> labs_choice loads s c = Inr (labs_content loads s f)"
  by (simp_all add: labs_choice_def)

lemma client_choice_cases:
  "delta_content c = Inl e \<Longrightarrow> client_choice loads stream s c = Inl (e, s)"
  "delta_content c = Inr f \<Longrightarrow> client_choice loads stream s c = client_content loads stream s f"
  by (simp_all add: client_choice_def)

lemma labs_for_choices_response:
  "stitched_response (locals_of (for_choices (labs_choice loads) cs s)) =
     stitched_response s @ concat (filter (\<lambda>f. \<not> is_evaluation_start f) (contents_read cs))"
proof (induction cs arbitrary: s)
  case Nil
  show ?case by simp
next
  case (Cons c cs)
  show ?case
    by (cases "delta_content c") (simp_all add: labs_choice_cases Cons.IH labs_content_response)
qed

lemma labs_chunk_response:
  "stitched_response (handle_chunk (labs_choice loads) c st) =
     stitched_response st @ concat (filter (\<lambda>f. \<not> is_evaluation_start f) (fragments c))"
proof (cases "\<exists>d. c = JObj d")
  case True
  then obtain d where c: "c = JObj d" by blast
  show ?thesis
    unfolding c handle_chunk_object Let_def
    by (simp add: labs_for_choices_response split: option.splits sum.splits)
next
  case False
  then have "fragments c = []" by (cases c) simp_all
  moreover obtain m t where "handle_chunk (labs_choice loads) c st =
      st\<lparr>results := results st @ [c], model := m, trace_id := t\<rparr>"
    using handle_chunk_not_object [of c "labs_choice loads" st] False by blast
  ultimately show ?thesis by simp
qed

lemma labs_lines_response:
  "stitched_response (labs_lines loads st ls) =
     stitched_response st @
     concat (filter (\<lambda>f. \<not> is_evaluation_start f) (concat (map fragments (chunks loads ls))))"
proof (induction ls arbitrary: st)
  case Nil
  show ?case by (simp add: labs_lines_def chunks_Nil)
next
  case (Cons l ls)
  have "labs_lines loads st (l # ls) =
        labs_lines loads (handle_line loads (labs_choice loads) st l) ls"
    by (simp add: labs_lines_def)
  then show ?case
    by (simp add: Cons.IH handle_line_chunk_of chunks_Cons labs_chunk_response
        split: option.splits)
qed

lemma client_content_normal:
  "\<not> in_evaluation_block s \<Longrightarrow> \<not> is_evaluation_start f \<Longrightarrow>
   client_content loads stream s f =
     Inr (s\<lparr>stitched_response := stitched_response s @ f,
            printed := printed s @ (if stream \<and> f \<noteq> [] then f else [])\<rparr>)"
  by (simp add: client_content_def)

lemma client_for_choices_normal:
  "\<not> in_evaluation_block s \<Longrightarrow> \<forall>f \<in> set (contents_read cs). \<not> is_evaluation_start f \<Longrightarrow>
   stitched_response (locals_of (for_choices (client_choice loads stream) cs s)) =
     stitched_response s @ concat (contents_read cs)
   \<and> \<not> in_evaluation_block (locals_of (for_choices (client_choice loads stream) cs s))"
proof (induction cs arbitrary: s)
  case Nil
  then show ?case by simp
next
  case (Cons c cs)
  show ?case
  proof (cases "delta_content c")
    case (Inl e)
    with Cons.prems show ?thesis by (simp add: client_choice_cases)
  next
    case (Inr f)
    let ?s = "s\<lparr>stitched_response := stitched_response s @ f,
                printed := printed s @ (if stream \<and> f \<noteq> [] then f else [])\<rparr>"
    have f: "\<not> is_evaluation_start f" using Cons.prems(2) Inr by simp
    have r: "\<forall>f \<in> set (contents_read cs). \<not> is_evaluation_start f"
      using Cons.prems(2) Inr by simp
    have n: "\<not> in_evaluation_block ?s" using Cons.prems(1) by simp
    show ?thesis
      using Cons.IH [OF n r] Inr
      by (simp add: client_choice_cases client_content_normal [OF Cons.prems(1) f])
  qed
qed

lemma client_chunk_normal:
  assumes "\<not> in_evaluation_block st" and "\<forall>f \<in> set (fragments c). \<not> is_evaluation_start f"
  shows "stitched_response (handle_chunk (client_choice loads stream) c st) =
           stitched_response st @ concat (fragments c)
       \<and> \<not> in_evaluation_block (handle_chunk (client_choice loads stream) c st)"
proof (cases "\<exists>d. c = JObj d")
  case True
  then obtain d where c: "c = JObj d" by blast
  show ?thesis
    using assms unfolding c handle_chunk_object Let_def
    by (auto simp: client_for_choices_normal split: option.splits sum.splits)
next
  case False
  then have "fragments c = []" by (cases c) simp_all
  moreover obtain m t where "handle_chunk (client_choice loads stream) c st =
      st\<lparr>results := results st @ [c], model := m, trace_id := t\<rparr>"
    using handle_chunk_not_object [of c "client_choice loads stream" st] False by blast
  ultimately show ?thesis
    using assms by simp
qed

lemma client_lines_normal:
  "\<not> in_evaluation_block st \<Longrightarrow>
   \<forall>c \<in> set (chunks loads ls). \<forall>f \<in> set (fragments c). \<not> is_evaluation_start f \<Longrightarrow>
   stitched_response (client_lines loads stream st ls) =
     stitched_response st @ concat (concat (map fragments (chunks loads ls)))"
proof (induction ls arbitrary: st)
  case Nil
  show ?case by (simp add: client_lines_def chunks_Nil)
next
  case (Cons l ls)
  have u: "client_lines loads stream st (l # ls) =
        client_lines loads stream (handle_line loads (client_choice loads stream) st l) ls"
    by (simp add: client_lines_def)
  show ?case
  proof (cases "chunk_of loads l")
    case None
    with Cons show ?thesis
      by (simp add: u handle_line_chunk_of chunks_Cons)
  next
    case (Some c)
    have fc: "\<forall>f \<in> set (fragments c). \<not> is_evaluation_start f"
      using Cons.prems(2) Some by (simp add: chunks_Cons)
    have r: "\<forall>c \<in> set (chunks loads ls). \<forall>f \<in> set (fragments c). \<not> is_evaluation_start f"
      using Cons.prems(2) Some by (simp add: chunks_Cons)
    note ch = client_chunk_normal [OF Cons.prems(1) fc, of loads stream]
    show ?thesis
      using Cons.IH [OF conjunct2 [OF ch] r] conjunct1 [OF ch] Some
      by (simp add: u handle_line_chunk_of chunks_Cons)
  qed
qed

lemma contents_read_all:
  "list_all (\<lambda>c. \<not> isl (delta_content c)) cs \<Longrightarrow> map delta_content cs = map Inr (contents_read cs)"
  by (induction cs) (auto split: sum.splits)

lemma fragments_well_formed:
  "well_formed_chunk (JObj d) \<Longrightarrow> map_of d ''choices'' = Some (JArr cs) \<Longrightarrow>
   map delta_content cs = map Inr (fragments (JObj d))"
  by (simp add: contents_read_all)

text \<open>
  Claim C3. When every chunk of the stream is well formed and no content fragment starts
  with \<^verbatim>\<open>{\<close> and contains \<^verbatim>\<open>evaluations\<close>, the response of either client is the
  concatenation of the content fragments of all choices of all chunks, in the order of
  arrival and with nothing in between. (By \<open>fragments_well_formed\<close> the fragments of a
  well-formed chunk are the contents of all of its choices.)
\<close>

theorem response_concatenates_fragments:
  assumes "\<forall>c \<in> set (chunks loads ls).
             well_formed_chunk c \<and> (\<forall>f \<in> set (fragments c). \<not> is_evaluation_start f)"
  shows "stitched_response (labs_lines loads labs_init ls) =
           concat (concat (map fragments (chunks loads ls)))
       \<and> stitched_response (client_lines loads stream client_init ls) =
           concat (concat (map fragments (chunks loads ls)))"
proof -
  have "filter (\<lambda>f. \<not> is_evaluation_start f) (concat (map fragments (chunks loads ls))) =
        concat (map fragments (chunks loads ls))"
    using assms by (auto simp: filter_id_conv)
  then have a: "stitched_response (labs_lines loads labs_init ls) =
           concat (concat (map fragments (chunks loads ls)))"
    by (simp add: labs_lines_response labs_init_def)
  have b: "stitched_response (client_lines loads stream client_init ls) =
           concat (concat (map fragments (chunks loads ls)))"
    using client_lines_normal [of client_init loads ls stream] assms
    by (simp add: client_init_def)
  show ?thesis using a b by blast
qed

theorem response_concatenates_fragments_witness:
  \<open>chunks json_loads
      [''data: [START]'',
       ''data: {"id":"t1","model":"m","choices":[{"delta":{"content":"Hel"}},{"delta":{}}]}'',
       '''',
       ''data: {"choices":[{"delta":{"content":"lo"}}]}'']
     = [JObj [(''id'', JStr ''t1''), (''model'', JStr ''m''),
              (''choices'', JArr [JObj [(''delta'', JObj [(''content'', JStr ''Hel'')])],
                                  JObj [(''delta'', JObj [])]])],
        JObj [(''choices'', JArr [JObj [(''delta'', JObj [(''content'', JStr ''lo'')])]])]]
   \<and> well_formed_chunk
        (JObj [(''id'', JStr ''t1''), (''model'', JStr ''m''),
               (''choices'', JArr [JObj [(''delta'', JObj [(''content'', JStr ''Hel'')])],
                                   JObj [(''delta'', JObj [])]])])
   \<and> well_formed_chunk
        (JObj [(''choices'', JArr [JObj [(''delta'', JObj [(''content'', JStr ''lo'')])]])])
   \<and> fragments
        (JObj [(''id'', JStr ''t1''), (''model'', JStr ''m''),
               (''choices'', JArr [JObj [(''delta'', JObj [(''content'', JStr ''Hel'')])],
                                   JObj [(''delta'', JObj [])]])]) = [''Hel'', '''']
   \<and> fragments
        (JObj [(''choices'', JArr [JObj [(''delta'', JObj [(''content'', JStr ''lo'')])]])])
       = [''lo'']
   \<and> \<not> is_evaluation_start ''Hel'' \<and> \<not> is_evaluation_start '''' \<and> \<not> is_evaluation_start ''lo''
   \<and> stitched_response (labs_lines json_loads labs_init
      [''data: [START]'',
       ''data: {"id":"t1","model":"m","choices":[{"delta":{"content":"Hel"}},{"delta":{}}]}'',
       '''',
       ''data: {"choices":[{"delta":{"content":"lo"}}]}'']) = ''Hello''
   \<and> stitched_response (client_lines json_loads True client_init
      [''data: [START]'',
       ''data: {"id":"t1","model":"m","choices":[{"delta":{"content":"Hel"}},{"delta":{}}]}'',
       '''',
       ''data: {"choices":[{"delta":{"content":"lo"}}]}'']) = ''Hello''\<close>
proof -
  let ?ls = \<open>[''data: [START]'',
       ''data: {"id":"t1","model":"m","choices":[{"delta":{"content":"Hel"}},{"delta":{}}]}'',
       '''',
       ''data: {"choices":[{"delta":{"content":"lo"}}]}'']\<close>
  let ?c1 = \<open>JObj [(''id'', JStr ''t1''), (''model'', JStr ''m''),
               (''choices'', JArr [JObj [(''delta'', JObj [(''content'', JStr ''Hel'')])],
                                   JObj [(''delta'', JObj [])]])]\<close>
  let ?c2 = \<open>JObj [(''choices'', JArr [JObj [(''delta'', JObj [(''content'', JStr ''lo'')])]])]\<close>
  have c: "chunks json_loads ?ls = [?c1, ?c2]" by code_simp
  have w: "well_formed_chunk ?c1 \<and> well_formed_chunk ?c2" by code_simp
  have f: "fragments ?c1 = [''Hel'', ''''] \<and> fragments ?c2 = [''lo'']" by code_simp
  have n: "\<not> is_evaluation_start ''Hel'' \<and> \<not> is_evaluation_start '''' \<and> \<not> is_evaluation_start ''lo''"
    by code_simp
  have h: "\<forall>c \<in> set (chunks json_loads ?ls).
             well_formed_chunk c \<and> (\<forall>f \<in> set (fragments c). \<not> is_evaluation_start f)"
    unfolding c using w f n by simp
  have r: "concat (concat (map fragments (chunks json_loads ?ls))) = ''Hello''"
    unfolding c using f by simp
  from response_concatenates_fragments [OF h, of True]
  show ?thesis
    using c w f n r by simp
qed

section \<open>A stream that breaks\<close>

text \<open>
  Claim C5, as amended. When the transport breaks after some lines, \<^verbatim>\<open>LLMLabsClient.chat\<close>
  prints the error and returns the result assembled from the lines read so far, the same
  result as for a stream that ends after these lines. \<^verbatim>\<open>Client.chat\<close> does not: its
  handler for \<^verbatim>\<open>RequestException\<close> turns the error into \<^verbatim>\<open>ValueError\<close>, and the call
  fails without a result.
\<close>

theorem broken_stream_outcome:
  assumes "broken r = Some msg" and "ok_status (status_code r)" and "prompt \<noteq> []"
    and "strip prompt \<noteq> []"
  shows "LLMLabsClient_chat loads prompt (Some mv) (Some un) (Some mt) (Inr r) =
           (''Stream broken: '' @ msg @ [CHR 0x0A],
            Inr (labs_lines loads labs_init (iter_lines r)))
       \<and> snd (LLMLabsClient_chat loads prompt (Some mv) (Some un) (Some mt) (Inr r)) =
         snd (LLMLabsClient_chat loads prompt (Some mv) (Some un) (Some mt)
                (Inr (r\<lparr>broken := None\<rparr>)))
       \<and> snd (Client_chat loads self prompt stream (Inr r)) =
           Inl (ValueError (''Request failed: '' @ msg))"
  using assms
  by (simp add: LLMLabsClient_chat_def labs_check_status_def Client_chat_def Let_def)

theorem broken_stream_outcome_witness:
  \<open>broken (ok_response [content_line ''Hel''] (Some ''Connection broken'')) = Some ''Connection broken''
   \<and> ok_status (status_code (ok_response [content_line ''Hel''] (Some ''Connection broken'')))
   \<and> ''hi'' \<noteq> [] \<and> strip ''hi'' \<noteq> []
   \<and> LLMLabsClient_chat json_loads ''hi'' (Some ''v'') (Some ''n'') (Some ''t'')
       (Inr (ok_response [content_line ''Hel''] (Some ''Connection broken'')))
     = (''Stream broken: Connection broken'' @ [CHR 0x0A],
        Inr \<lparr>results = [JObj [(''choices'',
                  JArr [JObj [(''delta'', JObj [(''content'', JStr ''Hel'')])]])]],
              stitched_response = ''Hel'', evaluations = JNull, trace_id = JNull,
              model = JNull\<rparr>)\<close>
proof -
  let ?r = \<open>ok_response [content_line ''Hel''] (Some ''Connection broken'')\<close>
  have h1: "broken ?r = Some ''Connection broken''" by (simp add: ok_response_def)
  have h2: "ok_status (status_code ?r)" by (simp add: ok_response_def ok_status_def)
  have h3: "''hi'' \<noteq> []" by simp
  have h4: "strip ''hi'' \<noteq> []" by code_simp
  have l: \<open>labs_lines json_loads labs_init (iter_lines ?r) =
     \<lparr>results = [JObj [(''choices'',
                  JArr [JObj [(''delta'', JObj [(''content'', JStr ''Hel'')])]])]],
              stitched_response = ''Hel'', evaluations = JNull, trace_id = JNull,
              model = JNull\<rparr>\<close>
    by code_simp
  from broken_stream_outcome [OF h1 h2 h3 h4, of json_loads "''v''" "''n''" "''t''"]
  show ?thesis
    using h1 h2 h3 h4 l by simp
qed

text \<open>
  Claim C5 as stated fails for \<^verbatim>\<open>Client.chat\<close>: after one good chunk and a broken
  connection the call raises, where the same lines without the break give a response.
\<close>

theorem broken_stream_counterexample:
  \<open>Client_chat json_loads example_client ''hi'' False
      (Inr (ok_response [content_line ''Hel''] (Some ''Connection broken'')))
     = ([], Inl (ValueError ''Request failed: Connection broken''))
   \<and> snd (Client_chat json_loads example_client ''hi'' False
      (Inr (ok_response [content_line ''Hel''] None)))
     = Inr \<lparr>cr_response = ''Hel'', cr_prompt = ''hi'', cr_evaluations = None,
            cr_enable_evaluations = True, cr_trace_id = JNull, cr_model = JNull,
            cr_raw_chunks = [JObj [(''choices'',
                  JArr [JObj [(''delta'', JObj [(''content'', JStr ''Hel'')])]])]]\<rparr>\<close>
  by code_simp


section \<open>An evaluation payload in a single fragment\<close>

text \<open>
  In \<^verbatim>\<open>LLMLabsClient.chat\<close> a fragment that opens an evaluation block is decoded at once:
  the evaluations and the trace identifier are those of the payload, and the response
  gets nothing.
\<close>

lemma labs_single_evaluation_fragment:
  assumes "chunk_of loads l = Some (JObj d)" and "map_of d ''choices'' = Some (JArr [ch])"
    and "delta_content ch = Inr content" and "is_evaluation_start content"
    and "loads content = Some (JObj p)"
  shows "stitched_response (labs_lines loads labs_init [l]) = []
       \<and> evaluations (labs_lines loads labs_init [l]) =
           (case map_of p ''evaluations'' of None \<Rightarrow> JNull | Some v \<Rightarrow> v)
       \<and> trace_id (labs_lines loads labs_init [l]) =
           (case map_of p ''traceId'' of
              Some t \<Rightarrow> t
            | None \<Rightarrow> (case map_of d ''id'' of None \<Rightarrow> JNull | Some t \<Rightarrow> t))"
  using assms
  by (simp add: labs_lines_def handle_line_chunk_of handle_chunk_object Let_def
      labs_choice_cases labs_content_def labs_init_def split: option.splits)

text \<open>
  Claim C1 at the stream of its example, one chunk whose content is the whole evaluation
  object. \<^verbatim>\<open>Client.chat\<close> only opens its buffer with the fragment and never decodes it,
  as no further fragment arrives: the response it returns has neither evaluations nor
  the trace identifier of the payload. \<^verbatim>\<open>LLMLabsClient.chat\<close> returns both for the same
  stream.
\<close>

theorem client_single_fragment_not_parsed:
  \<open>snd (Client_chat json_loads example_client ''hi'' False
     (Inr (ok_response
        [content_line ''{"evaluations":[{"evaluationType":"toxicity","score":0.1,"explanation":"ok"}],"traceId":"abc"}'']
        None)))
   = Inr \<lparr>cr_response = [], cr_prompt = ''hi'', cr_evaluations = None,
          cr_enable_evaluations = True, cr_trace_id = JNull, cr_model = JNull,
          cr_raw_chunks =
            [JObj [(''choices'', JArr [JObj [(''delta'', JObj [(''content'',
               JStr ''{"evaluations":[{"evaluationType":"toxicity","score":0.1,"explanation":"ok"}],"traceId":"abc"}'')])]])]]\<rparr>
   \<and> snd (LLMLabsClient_chat json_loads ''hi'' (Some ''v'') (Some ''n'') (Some ''t'')
     (Inr (ok_response
        [content_line ''{"evaluations":[{"evaluationType":"toxicity","score":0.1,"explanation":"ok"}],"traceId":"abc"}'']
        None)))
   = Inr \<lparr>results =
            [JObj [(''choices'', JArr [JObj [(''delta'', JObj [(''content'',
               JStr ''{"evaluations":[{"evaluationType":"toxicity","score":0.1,"explanation":"ok"}],"traceId":"abc"}'')])]])]],
          stitched_response = [],
          evaluations = JArr [JObj [(''evaluationType'', JStr ''toxicity''),
                                    (''score'', JNum 1 (- 1)), (''explanation'', JStr ''ok'')]],
          trace_id = JStr ''abc'', model = JNull\<rparr>\<close>
  by code_simp

section \<open>An evaluation payload split over two fragments\<close>












section \<open>The accumulating assembler as a two-state machine\<close>

lemma json_loads_object: "object_decoder json_loads"
  unfolding object_decoder_def
proof (intro allI impI)
  fix s v
  assume a: "startswith ''{'' s \<and> json_loads s = Some v"
  then obtain cs where s: "s = CHR ''{'' # cs"
    by (cases s) (auto simp: startswith_def)
  have w: "skip_ws s = s"
    by (simp add: s skip_ws_def json_ws_def)
  from a show "\<exists>d. v = JObj d"
    unfolding json_loads_def w
    by (auto simp: s Let_def split: option.splits if_splits prod.splits)
qed

lemma startswith_brace_append: "startswith ''{'' buf \<Longrightarrow> startswith ''{'' (buf @ f)"
  by (cases buf) (auto simp: startswith_def)

lemma client_content_view:
  assumes "object_decoder loads" and "opens_object (mode_of s)"
  shows "\<exists>s'. client_content loads stream s f = Inr s'
             \<and> view_of s' = absorb loads (view_of s) f \<and> opens_object (mode_of s')"
proof (cases "is_evaluation_start f")
  case True
  then show ?thesis
    by (simp add: client_content_def view_of_def mode_of_def opens_object_def
        is_evaluation_start_def)
next
  case False
  show ?thesis
  proof (cases "in_evaluation_block s")
    case nb: False
    with False show ?thesis
      by (simp add: client_content_def view_of_def mode_of_def opens_object_def)
  next
    case True
    then have b: "startswith ''{'' (evaluation_buffer s @ f)"
      using assms(2) by (simp add: mode_of_def opens_object_def startswith_brace_append)
    show ?thesis
    proof (cases "loads (evaluation_buffer s @ f)")
      case None
      with False True b show ?thesis
        by (simp add: client_content_def view_of_def mode_of_def opens_object_def)
    next
      case (Some v)
      then obtain p where "v = JObj p"
        using assms(1) b unfolding object_decoder_def by blast
      with Some False True show ?thesis
        by (simp add: client_content_def view_of_def mode_of_def opens_object_def)
    qed
  qed
qed

lemma client_for_choices_view:
  assumes "object_decoder loads"
  shows "opens_object (mode_of s) \<Longrightarrow>
         view_of (locals_of (for_choices (client_choice loads stream) cs s)) =
           foldl (absorb loads) (view_of s) (contents_read cs)
       \<and> opens_object (mode_of (locals_of (for_choices (client_choice loads stream) cs s)))"
proof (induction cs arbitrary: s)
  case Nil
  then show ?case by simp
next
  case (Cons c cs)
  show ?case
  proof (cases "delta_content c")
    case (Inl e)
    with Cons.prems show ?thesis by (simp add: client_choice_cases)
  next
    case (Inr f)
    obtain s' where s': "client_content loads stream s f = Inr s'"
      "view_of s' = absorb loads (view_of s) f" "opens_object (mode_of s')"
      using client_content_view [OF assms Cons.prems] by blast
    show ?thesis
      using Cons.IH [OF s'(3)] Inr s'(1,2) by (simp add: client_choice_cases)
  qed
qed

lemma view_of_metadata [simp]:
  "view_of (s\<lparr>results := r\<rparr>) = view_of s"
  "view_of (s\<lparr>model := m\<rparr>) = view_of s"
  "view_of (s\<lparr>trace_id := t\<rparr>) = view_of s"
  "mode_of (s\<lparr>results := r\<rparr>) = mode_of s"
  "mode_of (s\<lparr>model := m\<rparr>) = mode_of s"
  "mode_of (s\<lparr>trace_id := t\<rparr>) = mode_of s"
  by (simp_all add: view_of_def mode_of_def)

lemma client_chunk_view:
  assumes "object_decoder loads" and "opens_object (mode_of st)"
  shows "view_of (handle_chunk (client_choice loads stream) c st) =
           foldl (absorb loads) (view_of st) (fragments c)
       \<and> opens_object (mode_of (handle_chunk (client_choice loads stream) c st))"
proof (cases "\<exists>d. c = JObj d")
  case True
  then obtain d where c: "c = JObj d" by blast
  show ?thesis
    using assms(2) unfolding c handle_chunk_object Let_def
    by (auto simp: client_for_choices_view [OF assms(1)] split: option.splits sum.splits)
next
  case False
  then have "fragments c = []" by (cases c) simp_all
  moreover obtain m t where "handle_chunk (client_choice loads stream) c st =
      st\<lparr>results := results st @ [c], model := m, trace_id := t\<rparr>"
    using handle_chunk_not_object [of c "client_choice loads stream" st] False by blast
  ultimately show ?thesis
    using assms(2) by simp
qed

lemma client_lines_view:
  assumes "object_decoder loads"
  shows "opens_object (mode_of st) \<Longrightarrow>
         view_of (client_lines loads stream st ls) =
           foldl (absorb loads) (view_of st) (concat (map fragments (chunks loads ls)))
       \<and> opens_object (mode_of (client_lines loads stream st ls))"
proof (induction ls arbitrary: st)
  case Nil
  then show ?case by (simp add: client_lines_def chunks_Nil)
next
  case (Cons l ls)
  have u: "client_lines loads stream st (l # ls) =
        client_lines loads stream (handle_line loads (client_choice loads stream) st l) ls"
    by (simp add: client_lines_def)
  show ?case
  proof (cases "chunk_of loads l")
    case None
    with Cons show ?thesis
      by (simp add: u handle_line_chunk_of chunks_Cons)
  next
    case (Some c)
    note ch = client_chunk_view [OF assms Cons.prems, of stream c]
    show ?thesis
      using Cons.IH [OF conjunct2 [OF ch]] conjunct1 [OF ch] Some
      by (simp add: u handle_line_chunk_of chunks_Cons)
  qed
qed

lemma absorb_response:
  "fst (snd (foldl (absorb loads) (m, r, e) fs)) = r @ concat (normal_fragments loads m fs)"
  by (induction fs arbitrary: m r e) auto

lemma absorb_unterminated:
  "\<forall>f \<in> set fs. \<not> is_evaluation_start f \<Longrightarrow>
   \<forall>n. 0 < n \<and> n \<le> length fs \<longrightarrow> loads (buf @ concat (take n fs)) = None \<Longrightarrow>
   foldl (absorb loads) (AccumulatingEvaluation buf, r, e) fs =
     (AccumulatingEvaluation (buf @ concat fs), r, e)"
proof (induction fs arbitrary: buf)
  case Nil
  show ?case by simp
next
  case (Cons f fs)
  have 1: "loads (buf @ f) = None"
    using Cons.prems(2) [rule_format, of 1] by simp
  have 2: "\<forall>n. 0 < n \<and> n \<le> length fs \<longrightarrow> loads ((buf @ f) @ concat (take n fs)) = None"
  proof (intro allI impI)
    fix n assume "0 < n \<and> n \<le> length fs"
    then show "loads ((buf @ f) @ concat (take n fs)) = None"
      using Cons.prems(2) [rule_format, of "Suc n"] by simp
  qed
  have 3: "\<forall>f \<in> set fs. \<not> is_evaluation_start f" using Cons.prems(1) by simp
  show ?case
    using Cons.IH [OF 3 2] Cons.prems(1) 1 by simp
qed

lemma client_lines_append:
  "client_lines loads stream st (xs @ ys) =
     client_lines loads stream (client_lines loads stream st xs) ys"
  by (simp add: client_lines_def)

lemma view_of_init: "view_of client_init = (Normal, [], JNull)"
  by (simp add: view_of_def mode_of_def client_init_def)

lemma client_content_evaluation_text:
  "is_evaluation_start f \<or> in_evaluation_block st \<Longrightarrow>
   stitched_response (locals_of (client_content loads stream st f)) = stitched_response st"
  by (auto simp: client_content_def Let_def split: option.splits sum.splits)

text \<open>
  Claim C4, for \<^verbatim>\<open>Client.chat\<close> and a decoder that yields dictionaries on texts that
  start with a brace. A fragment that opens an evaluation block, or arrives while one is
  open, never changes the response; the response of a whole stream is the concatenation
  of the fragments read in normal mode; and when the stream ends in a block that never
  decoded, the lines of that block have changed neither the response nor the
  evaluations: the buffer stays in a local that the result is not built from.
\<close>

theorem evaluation_text_kept_out_of_response:
  assumes "object_decoder loads"
  shows "(\<forall>st f. is_evaluation_start f \<or> in_evaluation_block st \<longrightarrow>
            stitched_response (locals_of (client_content loads stream st f)) =
              stitched_response st)
       \<and> stitched_response (client_lines loads stream client_init ls) =
           concat (normal_fragments loads Normal (concat (map fragments (chunks loads ls))))
       \<and> (concat (map fragments (chunks loads blk)) = a # fs
            \<and> is_evaluation_start a \<and> (\<forall>f \<in> set fs. \<not> is_evaluation_start f)
            \<and> (\<forall>n. 0 < n \<and> n \<le> length fs \<longrightarrow> loads (a @ concat (take n fs)) = None) \<longrightarrow>
          in_evaluation_block (client_lines loads stream client_init (pre @ blk))
          \<and> evaluation_buffer (client_lines loads stream client_init (pre @ blk)) = a @ concat fs
          \<and> stitched_response (client_lines loads stream client_init (pre @ blk)) =
              stitched_response (client_lines loads stream client_init pre)
          \<and> evaluations (client_lines loads stream client_init (pre @ blk)) =
              evaluations (client_lines loads stream client_init pre))"
proof -
  have i: "opens_object (mode_of client_init)"
    by (simp add: opens_object_def mode_of_def client_init_def)
  have 1: "\<forall>st f. is_evaluation_start f \<or> in_evaluation_block st \<longrightarrow>
            stitched_response (locals_of (client_content loads stream st f)) =
              stitched_response st"
    using client_content_evaluation_text by blast
  have "fst (snd (view_of (client_lines loads stream client_init ls))) =
          concat (normal_fragments loads Normal (concat (map fragments (chunks loads ls))))"
    using client_lines_view [OF assms i, of stream ls]
    by (simp add: view_of_init absorb_response)
  then have 2: "stitched_response (client_lines loads stream client_init ls) =
           concat (normal_fragments loads Normal (concat (map fragments (chunks loads ls))))"
    by (simp add: view_of_def)
  have 3: "in_evaluation_block (client_lines loads stream client_init (pre @ blk))
          \<and> evaluation_buffer (client_lines loads stream client_init (pre @ blk)) = a @ concat fs
          \<and> stitched_response (client_lines loads stream client_init (pre @ blk)) =
              stitched_response (client_lines loads stream client_init pre)
          \<and> evaluations (client_lines loads stream client_init (pre @ blk)) =
              evaluations (client_lines loads stream client_init pre)"
    if h: "concat (map fragments (chunks loads blk)) = a # fs"
      "is_evaluation_start a" "\<forall>f \<in> set fs. \<not> is_evaluation_start f"
      "\<forall>n. 0 < n \<and> n \<le> length fs \<longrightarrow> loads (a @ concat (take n fs)) = None"
  proof -
    let ?s0 = "client_lines loads stream client_init pre"
    let ?s1 = "client_lines loads stream client_init (pre @ blk)"
    have i0: "opens_object (mode_of ?s0)"
      using client_lines_view [OF assms i, of stream pre] by blast
    have "view_of ?s1 = foldl (absorb loads) (view_of ?s0) (a # fs)"
      using client_lines_view [OF assms i0, of stream blk] h(1)
      by (simp add: client_lines_append)
    also have "\<dots> = foldl (absorb loads)
                        (AccumulatingEvaluation a, stitched_response ?s0, evaluations ?s0) fs"
      using h(2) by (simp add: view_of_def)
    also have "\<dots> = (AccumulatingEvaluation (a @ concat fs), stitched_response ?s0,
                      evaluations ?s0)"
      using absorb_unterminated [OF h(3,4)] .
    finally have v: "view_of ?s1 = (AccumulatingEvaluation (a @ concat fs),
                       stitched_response ?s0, evaluations ?s0)" .
    then have "mode_of ?s1 = AccumulatingEvaluation (a @ concat fs)"
      by (simp add: view_of_def)
    then have "in_evaluation_block ?s1 \<and> evaluation_buffer ?s1 = a @ concat fs"
      by (simp add: mode_of_def split: if_splits)
    with v show ?thesis
      by (simp add: view_of_def)
  qed
  show ?thesis
    using 1 2 3 by blast
qed

theorem evaluation_text_kept_out_of_response_witness:
  \<open>concat (map fragments (chunks json_loads
       [content_line ''Hi'', content_line ''{"evaluations":['', content_line ''{"x":1'']))
     = [''Hi'', ''{"evaluations":['', ''{"x":1'']
   \<and> normal_fragments json_loads Normal [''Hi'', ''{"evaluations":['', ''{"x":1''] = [''Hi'']
   \<and> stitched_response (client_lines json_loads False client_init
        [content_line ''Hi'', content_line ''{"evaluations":['', content_line ''{"x":1''])
     = ''Hi''
   \<and> concat (map fragments (chunks json_loads
       [content_line ''{"evaluations":['', content_line ''{"x":1'']))
     = ''{"evaluations":['' # [''{"x":1'']
   \<and> is_evaluation_start ''{"evaluations":['' \<and> \<not> is_evaluation_start ''{"x":1''
   \<and> json_loads (''{"evaluations":['' @ ''{"x":1'') = None
   \<and> in_evaluation_block (client_lines json_loads False client_init
        ([content_line ''Hi''] @ [content_line ''{"evaluations":['', content_line ''{"x":1'']))
   \<and> evaluation_buffer (client_lines json_loads False client_init
        ([content_line ''Hi''] @ [content_line ''{"evaluations":['', content_line ''{"x":1'']))
     = ''{"evaluations":['' @ concat [''{"x":1'']
   \<and> stitched_response (client_lines json_loads False client_init
        ([content_line ''Hi''] @ [content_line ''{"evaluations":['', content_line ''{"x":1'']))
     = stitched_response (client_lines json_loads False client_init [content_line ''Hi''])
   \<and> evaluations (client_lines json_loads False client_init
        ([content_line ''Hi''] @ [content_line ''{"evaluations":['', content_line ''{"x":1'']))
     = evaluations (client_lines json_loads False client_init [content_line ''Hi''])\<close>
proof -
  let ?a = \<open>''{"evaluations":[''\<close>
  let ?f = \<open>''{"x":1''\<close>
  let ?pre = \<open>[content_line ''Hi'']\<close>
  let ?blk = \<open>[content_line ?a, content_line ?f]\<close>
  have c1: \<open>concat (map fragments (chunks json_loads
       [content_line ''Hi'', content_line ?a, content_line ?f])) = [''Hi'', ?a, ?f]\<close>
    by code_simp
  have n: \<open>normal_fragments json_loads Normal [''Hi'', ?a, ?f] = [''Hi'']\<close>
    by code_simp
  have c2: \<open>concat (map fragments (chunks json_loads ?blk)) = ?a # [?f]\<close>
    by code_simp
  have s1: \<open>is_evaluation_start ?a\<close> by code_simp
  have s2: \<open>\<not> is_evaluation_start ?f\<close> by code_simp
  have l: \<open>json_loads (?a @ ?f) = None\<close>
    by code_simp
  have b: \<open>\<forall>f \<in> set [?f]. \<not> is_evaluation_start f\<close>
    using s2 by simp
  have q: \<open>\<forall>n. 0 < n \<and> n \<le> length [?f] \<longrightarrow> json_loads (?a @ concat (take n [?f])) = None\<close>
  proof (intro allI impI)
    fix n :: nat assume "0 < n \<and> n \<le> length [?f]"
    then have "n = 1" by simp
    then show "json_loads (?a @ concat (take n [?f])) = None"
      using l by simp
  qed
  note t = evaluation_text_kept_out_of_response [OF json_loads_object, where stream = False
      and ls = \<open>[content_line ''Hi'', content_line ?a, content_line ?f]\<close>
      and blk = ?blk and a = ?a and fs = \<open>[?f]\<close> and pre = ?pre]
  note t2 = t [THEN conjunct2, THEN conjunct1]
  note t3 = t [THEN conjunct2, THEN conjunct2, THEN mp, OF conjI [OF c2 conjI [OF s1 conjI [OF b q]]]]
  have r: \<open>stitched_response (client_lines json_loads False client_init
        [content_line ''Hi'', content_line ?a, content_line ?f]) = ''Hi''\<close>
    using t2 unfolding c1 n by simp
  show ?thesis
    by (intro conjI c1 n r c2 s1 s2 l t3 [THEN conjunct1] t3 [THEN conjunct2, THEN conjunct1]
        t3 [THEN conjunct2, THEN conjunct2, THEN conjunct1]
        t3 [THEN conjunct2, THEN conjunct2, THEN conjunct2])
qed

end
